theory Spec2Isabelle
  imports Complex_Main
begin

section \<open>JavaScript values shared by the components\<close>

text \<open>
  The error objects the code throws or rejects with. \<open>Error\<close>, \<open>TypeError\<close>, \<open>RangeError\<close>
  and \<open>ReferenceError\<close> carry their message; \<open>SystemError\<close> stands for the errors of the
  Node runtime (\<open>dns.lookup\<close>, sockets, \<open>https.request\<close>) and carries the error code.
\<close>

datatype js_error =
    Error string
  | TypeError string
  | RangeError string
  | ReferenceError string
  | SystemError string

section \<open>PromiseEngine (the cancelable loop)\<close>

text \<open>
  Source: class \<open>PromiseEngine\<close>. Every call of \<open>promiseFn()\<close> gets the next natural number
  as its identity; the promise \<open>promiseFn().then(...)\<close> stored in \<open>#currentPromise\<close> is
  named by the same number. The \<open>_cancel\<close> property set on such a promise is the set
  \<open>cancel\<close>. Which operations are still in flight is not a field of the class: it is the
  state of the promises, kept here in \<open>pending\<close>. \<open>trace\<close> records, newest first, what
  happened: an operation was started, it settled, or its handle was marked canceled.
\<close>

datatype obs = Started nat | Settled nat | Canceled nat

record 'r promise_engine =
  running :: bool
  currentPromise :: "nat option"
  promiseFn :: 'r
  cancel :: "nat set"
  pending :: "nat set"
  calls :: nat
  trace :: "obs list"

definition setRunning :: "bool \<Rightarrow> 'r promise_engine \<Rightarrow> 'r promise_engine" where
  "setRunning r s = (if r \<noteq> running s then s\<lparr>running := r\<rparr> else s)"

text \<open>\<open>#next()\<close>: call \<open>promiseFn()\<close> now and remember the chained promise as current.\<close>

definition next_iter :: "'r promise_engine \<Rightarrow> 'r promise_engine" where
  "next_iter s =
     s\<lparr>currentPromise := Some (calls s),
       pending := insert (calls s) (pending s),
       trace := Started (calls s) # trace s,
       calls := Suc (calls s)\<rparr>"

definition cancelCurrent :: "'r promise_engine \<Rightarrow> 'r promise_engine" where
  "cancelCurrent s =
     (case currentPromise s of
        None \<Rightarrow> s
      | Some h \<Rightarrow> s\<lparr>cancel := insert h (cancel s), trace := Canceled h # trace s\<rparr>)"

definition pause :: "'r promise_engine \<Rightarrow> 'r promise_engine" where
  "pause s = setRunning False (cancelCurrent s)"

definition stop :: "'r promise_engine \<Rightarrow> 'r promise_engine" where
  "stop s = pause s"

definition play :: "'r promise_engine \<Rightarrow> 'r promise_engine" where
  "play s = (if \<not> running s then next_iter (setRunning True s) else s)"

text \<open>
  The \<open>then\<close> callback of operation \<open>h\<close>: it runs when the promise of \<open>promiseFn()\<close> is
  fulfilled, and starts the next iteration unless the handle is canceled. A rejected
  operation runs no callback (\<open>then\<close> has one argument).
\<close>

definition on_fulfilled :: "nat \<Rightarrow> 'r promise_engine \<Rightarrow> 'r promise_engine" where
  "on_fulfilled h s = (if h \<notin> cancel s then next_iter s else s)"

definition settle :: "nat \<Rightarrow> 'r promise_engine \<Rightarrow> 'r promise_engine" where
  "settle h s = s\<lparr>pending := pending s - {h}, trace := Settled h # trace s\<rparr>"

text \<open>
  What can happen to an engine: a call of one of its three methods, or the settlement of
  an operation in flight. A promise settles once, so the settlement of an operation that
  is not pending is no event.
\<close>

datatype event = Play | Pause | Stop | Fulfil nat | Reject nat

fun step :: "event \<Rightarrow> 'r promise_engine \<Rightarrow> 'r promise_engine" where
  "step Play s = play s"
| "step Pause s = pause s"
| "step Stop s = stop s"
| "step (Fulfil h) s = (if h \<in> pending s then on_fulfilled h (settle h s) else s)"
| "step (Reject h) s = (if h \<in> pending s then settle h s else s)"

definition run :: "event list \<Rightarrow> 'r promise_engine \<Rightarrow> 'r promise_engine" where
  "run es s = fold step es s"

text \<open>The field initialisers, then the constructor: it throws without an operation and
  calls \<open>play()\<close> itself.\<close>

definition fresh_engine :: "'r \<Rightarrow> 'r promise_engine" where
  "fresh_engine f =
     \<lparr>running = False, currentPromise = None, promiseFn = f, cancel = {}, pending = {},
      calls = 0, trace = []\<rparr>"

definition PromiseEngine :: "'r option \<Rightarrow> js_error + 'r promise_engine" where
  "PromiseEngine pf =
     (case pf of
        None \<Rightarrow> Inl (Error ''Missing operation to perform'')
      | Some f \<Rightarrow> Inr (play (fresh_engine f)))"

subsection \<open>Properties of a trace\<close>

text \<open>
  \<open>non_overlap\<close>: each start comes after the settlement of the operation started just
  before it. \<open>starts_clear\<close>: at each start, every operation started earlier has settled
  or has had its handle canceled. Traces are newest first, so "earlier" is the tail.
\<close>

fun non_overlap :: "obs list \<Rightarrow> bool" where
  "non_overlap [] = True"
| "non_overlap (Started k # tr) = ((k = 0 \<or> Settled (k - 1) \<in> set tr) \<and> non_overlap tr)"
| "non_overlap (Settled k # tr) = non_overlap tr"
| "non_overlap (Canceled k # tr) = non_overlap tr"

fun starts_clear :: "obs list \<Rightarrow> bool" where
  "starts_clear [] = True"
| "starts_clear (Started k # tr) =
     ((\<forall>j<k. Settled j \<in> set tr \<or> Canceled j \<in> set tr) \<and> starts_clear tr)"
| "starts_clear (Settled k # tr) = starts_clear tr"
| "starts_clear (Canceled k # tr) = starts_clear tr"

fun is_settlement :: "event \<Rightarrow> bool" where
  "is_settlement (Fulfil h) = True"
| "is_settlement (Reject h) = True"
| "is_settlement _ = False"

fun is_cancel :: "event \<Rightarrow> bool" where
  "is_cancel Pause = True"
| "is_cancel Stop = True"
| "is_cancel _ = False"

text \<open>
  The invariant of the engine: an operation that is in flight with its handle not
  canceled is the current one of a running engine, every started operation is pending
  or has settled in the trace, every canceled handle is canceled in the trace, and the
  trace has \<open>starts_clear\<close>.
\<close>

definition engine_inv :: "'r promise_engine \<Rightarrow> bool" where
  "engine_inv s \<longleftrightarrow>
     (\<forall>j\<in>pending s. j \<notin> cancel s \<longrightarrow> running s \<and> currentPromise s = Some j) \<and>
     (\<forall>j<calls s. j \<in> pending s \<or> Settled j \<in> set (trace s)) \<and>
     (\<forall>j\<in>pending s. j < calls s) \<and>
     (\<forall>j\<in>cancel s. Canceled j \<in> set (trace s)) \<and>
     starts_clear (trace s)"

lemma engine_inv_fresh: "engine_inv (fresh_engine f)"
  by (simp add: engine_inv_def fresh_engine_def)

lemma engine_inv_play: "engine_inv s \<Longrightarrow> engine_inv (play s)"
  unfolding engine_inv_def play_def next_iter_def setRunning_def
  by (auto simp: less_Suc_eq)

lemma engine_inv_pause: "engine_inv s \<Longrightarrow> engine_inv (pause s)"
  unfolding engine_inv_def pause_def cancelCurrent_def setRunning_def
  by (auto split: option.splits)

lemma engine_inv_settle_reject:
  "engine_inv s \<Longrightarrow> h \<in> pending s \<Longrightarrow> engine_inv (settle h s)"
  unfolding engine_inv_def settle_def by auto

lemma others_canceled:
  assumes "engine_inv s" and "h \<in> pending s" and "h \<notin> cancel s"
    and "j \<in> pending s" and "j \<noteq> h"
  shows "j \<in> cancel s"
proof (rule ccontr)
  assume "j \<notin> cancel s"
  with assms(1,4) have "currentPromise s = Some j" by (simp add: engine_inv_def)
  moreover from assms(1,2,3) have "currentPromise s = Some h" by (simp add: engine_inv_def)
  ultimately show False using assms(5) by simp
qed

lemma engine_inv_settle_fulfil:
  assumes inv: "engine_inv s" and h: "h \<in> pending s"
  shows "engine_inv (on_fulfilled h (settle h s))"
proof (cases "h \<in> cancel s")
  case True
  then have "on_fulfilled h (settle h s) = settle h s"
    by (simp add: on_fulfilled_def settle_def)
  then show ?thesis using inv h by (simp add: engine_inv_settle_reject)
next
  case False
  have run: "running s" using inv h False by (simp add: engine_inv_def)
  have oth: "\<And>j. j \<in> pending s \<Longrightarrow> j \<noteq> h \<Longrightarrow> j \<in> cancel s"
    using others_canceled [OF inv h False] by blast
  have cl: "\<And>j. j \<in> cancel s \<Longrightarrow> Canceled j \<in> set (trace s)"
    using inv by (simp add: engine_inv_def)
  have st: "\<And>j. j < calls s \<Longrightarrow> j \<in> pending s \<or> Settled j \<in> set (trace s)"
    using inv by (simp add: engine_inv_def)
  have lt: "\<And>j. j \<in> pending s \<Longrightarrow> j < calls s"
    using inv by (simp add: engine_inv_def)
  have sc: "starts_clear (trace s)" using inv by (simp add: engine_inv_def)
  have new_clear: "\<forall>j<calls s. Settled j \<in> set (Settled h # trace s)
                     \<or> Canceled j \<in> set (Settled h # trace s)"
  proof (intro allI impI)
    fix j assume "j < calls s"
    then consider "j = h" | "j \<noteq> h" "j \<in> pending s" | "Settled j \<in> set (trace s)"
      using st by blast
    then show "Settled j \<in> set (Settled h # trace s) \<or> Canceled j \<in> set (Settled h # trace s)"
    proof cases
      case 1 then show ?thesis by simp
    next
      case 2 then show ?thesis using oth cl by simp
    next
      case 3 then show ?thesis by simp
    qed
  qed
  have eq: "on_fulfilled h (settle h s) =
      s\<lparr>pending := insert (calls s) (pending s - {h}),
        trace := Started (calls s) # Settled h # trace s,
        currentPromise := Some (calls s), calls := Suc (calls s)\<rparr>"
    using False by (simp add: on_fulfilled_def settle_def next_iter_def)
  have "starts_clear (Started (calls s) # Settled h # trace s)"
    using sc new_clear by simp
  then show ?thesis
    unfolding eq engine_inv_def using run oth st lt cl
    by (auto simp: less_Suc_eq)
qed

lemma engine_inv_step: "engine_inv s \<Longrightarrow> engine_inv (step e s)"
  by (cases e)
     (simp_all add: engine_inv_play engine_inv_pause stop_def engine_inv_settle_reject
        engine_inv_settle_fulfil)

lemma engine_inv_fold: "engine_inv s \<Longrightarrow> engine_inv (fold step es s)"
  by (induction es arbitrary: s) (simp_all add: engine_inv_step)

lemma engine_inv_run: "engine_inv s \<Longrightarrow> engine_inv (run es s)"
  by (simp add: run_def engine_inv_fold)

lemma not_running_all_canceled:
  "engine_inv s \<Longrightarrow> \<not> running s \<Longrightarrow> h \<in> pending s \<Longrightarrow> h \<in> cancel s"
  by (auto simp: engine_inv_def)

lemma pause_not_running: "\<not> running (pause s)"
  by (simp add: pause_def setRunning_def cancelCurrent_def split: option.splits)

lemma pause_calls: "calls (pause s) = calls s"
  by (simp add: pause_def setRunning_def cancelCurrent_def split: option.splits)

lemma settlement_when_idle:
  assumes "engine_inv s" and "\<not> running s" and "is_settlement x"
  shows "engine_inv (step x s) \<and> \<not> running (step x s) \<and> calls (step x s) = calls s"
proof (cases x)
  case (Fulfil h)
  show ?thesis
  proof (cases "h \<in> pending s")
    case True
    then have "h \<in> cancel s" using assms(1,2) by (rule not_running_all_canceled [rotated 2])
    then have "step x s = settle h s"
      using True Fulfil by (simp add: on_fulfilled_def settle_def)
    then show ?thesis
      using assms(1,2) True by (simp add: engine_inv_settle_reject) (simp add: settle_def)
  next
    case False
    then show ?thesis using assms(1,2) Fulfil by simp
  qed
next
  case (Reject h)
  then show ?thesis
    using assms(1,2) by (simp add: engine_inv_settle_reject) (simp add: settle_def)
qed (use assms(3) in simp_all)

lemma settlements_when_idle:
  "engine_inv s \<Longrightarrow> \<not> running s \<Longrightarrow> \<forall>x\<in>set ss. is_settlement x \<Longrightarrow>
   calls (fold step ss s) = calls s"
proof (induction ss arbitrary: s)
  case Nil
  then show ?case by simp
next
  case (Cons x ss)
  from Cons.prems have x: "is_settlement x" by simp
  note st = settlement_when_idle [OF Cons.prems(1,2) x]
  have "calls (fold step ss (step x s)) = calls (step x s)"
    using Cons.IH [of "step x s"] st Cons.prems(3) by simp
  then show ?case using st by simp
qed

text \<open>Without \<open>pause()\<close>/\<open>stop()\<close> nothing is ever canceled and the engine stays running.\<close>

definition never_canceled :: "'r promise_engine \<Rightarrow> bool" where
  "never_canceled s \<longleftrightarrow> running s \<and> (\<forall>k. Canceled k \<notin> set (trace s))"

lemma never_canceled_step:
  "never_canceled s \<Longrightarrow> \<not> is_cancel e \<Longrightarrow> never_canceled (step e s)"
  by (cases e)
     (auto simp: never_canceled_def play_def on_fulfilled_def settle_def next_iter_def)

lemma never_canceled_fold:
  "never_canceled s \<Longrightarrow> \<forall>e\<in>set es. \<not> is_cancel e \<Longrightarrow> never_canceled (fold step es s)"
  by (induction es arbitrary: s) (simp_all add: never_canceled_step)

lemma never_canceled_constructed: "never_canceled (play (fresh_engine f))"
  by (simp add: never_canceled_def play_def fresh_engine_def next_iter_def setRunning_def)

lemma starts_clear_non_overlap:
  "starts_clear tr \<Longrightarrow> \<forall>k. Canceled k \<notin> set tr \<Longrightarrow> non_overlap tr"
proof (induction tr rule: non_overlap.induct)
  case (2 k tr)
  then show ?case by (cases k) auto
qed auto

subsection \<open>Claims about the loop\<close>

text \<open>
  C1, as amended. The claim as stated (each start comes at or after the settlement of
  the operation started before it, for every sequence of calls and settlements) fails:
  \<open>play()\<close> after \<open>pause()\<close> calls \<open>promiseFn()\<close> at once, while the canceled operation
  may still be in flight. What holds for every sequence of \<open>play()\<close>, \<open>pause()\<close>, \<open>stop()\<close>
  and settlements after construction: when an operation starts, every operation started
  before it has settled or has had its handle canceled by \<open>pause()\<close>/\<open>stop()\<close>. And in a
  sequence with no \<open>pause()\<close> and no \<open>stop()\<close> (a freely running loop), each start comes
  after the settlement of the operation started before it.
\<close>

theorem starts_after_settle_or_cancel:
  assumes "PromiseEngine (Some f) = Inr s"
  shows "starts_clear (trace (run es s)) \<and>
         ((\<forall>e\<in>set es. \<not> is_cancel e) \<longrightarrow> non_overlap (trace (run es s)))"
proof -
  from assms have s: "s = play (fresh_engine f)" by (simp add: PromiseEngine_def)
  have inv: "engine_inv (run es s)"
    unfolding s by (intro engine_inv_run engine_inv_play engine_inv_fresh)
  then have clear: "starts_clear (trace (run es s))" by (simp add: engine_inv_def)
  have "non_overlap (trace (run es s))" if free: "\<forall>e\<in>set es. \<not> is_cancel e"
  proof -
    have "never_canceled (run es s)"
      unfolding s run_def using never_canceled_constructed free by (rule never_canceled_fold)
    then have "\<forall>k. Canceled k \<notin> set (trace (run es s))" by (simp add: never_canceled_def)
    with clear show ?thesis by (rule starts_clear_non_overlap)
  qed
  with clear show ?thesis by blast
qed

theorem starts_after_settle_or_cancel_witness:
  "PromiseEngine (Some ()) = Inr (play (fresh_engine ())) \<and>
   list_all (\<lambda>e. \<not> is_cancel e) [Fulfil 0, Play, Reject 1] \<and>
   trace (run [Fulfil 0, Play, Reject 1] (play (fresh_engine ()))) =
     [Settled 1, Started 1, Settled 0, Started 0] \<and>
   starts_clear (trace (run [Fulfil 0, Play, Reject 1] (play (fresh_engine ())))) \<and>
   non_overlap (trace (run [Fulfil 0, Play, Reject 1] (play (fresh_engine ()))))"
proof -
  have c: "PromiseEngine (Some ()) = Inr (play (fresh_engine ()))"
    by (simp add: PromiseEngine_def)
  have t: "trace (run [Fulfil 0, Play, Reject 1] (play (fresh_engine ()))) =
     [Settled 1, Started 1, Settled 0, Started 0]"
    by (simp add: run_def play_def fresh_engine_def next_iter_def setRunning_def
        on_fulfilled_def settle_def)
  have f: "\<forall>e\<in>set [Fulfil 0, Play, Reject 1]. \<not> is_cancel e" by simp
  show ?thesis
    using starts_after_settle_or_cancel [OF c, of "[Fulfil 0, Play, Reject 1]"] c t f
    by simp
qed

text \<open>
  The counterexample to C1 as stated: construct, \<open>pause()\<close>, \<open>play()\<close>. Operation 1 starts
  while operation 0, started before it, has not settled.
\<close>

theorem non_overlap_counterexample:
  "PromiseEngine (Some ()) = Inr (play (fresh_engine ())) \<and>
   trace (run [Pause, Play] (play (fresh_engine ()))) = [Started 1, Canceled 0, Started 0] \<and>
   pending (run [Pause, Play] (play (fresh_engine ()))) = {0, 1} \<and>
   \<not> non_overlap (trace (run [Pause, Play] (play (fresh_engine ()))))"
  by (simp add: PromiseEngine_def run_def play_def pause_def cancelCurrent_def
      fresh_engine_def next_iter_def setRunning_def insert_commute)

text \<open>
  C8. After \<open>pause()\<close> or \<open>stop()\<close>, in any state the engine can reach after construction,
  no settlement starts an operation: the number of \<open>promiseFn()\<close> calls stays what it was
  before the call, whichever operations settle afterwards and in whatever order. In
  particular the fulfilment of a canceled handle changes nothing but the pending set
  and the trace.
\<close>

theorem no_start_after_stop:
  assumes "PromiseEngine (Some f) = Inr s"
    and "is_cancel e"
    and "\<forall>x\<in>set ss. is_settlement x"
  shows "calls (run ss (step e (run es s))) = calls (run es s) \<and>
         (\<forall>h\<in>cancel (run es s). calls (step (Fulfil h) (run es s)) = calls (run es s))"
proof -
  from assms(1) have s: "s = play (fresh_engine f)" by (simp add: PromiseEngine_def)
  have inv: "engine_inv (run es s)"
    unfolding s by (intro engine_inv_run engine_inv_play engine_inv_fresh)
  from assms(2) have e: "step e (run es s) = pause (run es s)"
    by (cases e) (simp_all add: stop_def)
  have "calls (run ss (pause (run es s))) = calls (pause (run es s))"
    unfolding run_def [of ss]
    using engine_inv_pause [OF inv] pause_not_running assms(3)
    by (rule settlements_when_idle)
  then have a: "calls (run ss (step e (run es s))) = calls (run es s)"
    by (simp add: e pause_calls)
  have b: "\<forall>h\<in>cancel (run es s). calls (step (Fulfil h) (run es s)) = calls (run es s)"
    by (simp add: on_fulfilled_def settle_def)
  from a b show ?thesis by blast
qed

theorem no_start_after_stop_witness:
  "PromiseEngine (Some ()) = Inr (play (fresh_engine ())) \<and> is_cancel Stop \<and>
   list_all is_settlement [Fulfil 1, Reject 0] \<and>
   calls (run [Fulfil 0] (play (fresh_engine ()))) = 2 \<and>
   pending (step Stop (run [Fulfil 0] (play (fresh_engine ())))) = {1} \<and>
   calls (run [Fulfil 1, Reject 0] (step Stop (run [Fulfil 0] (play (fresh_engine ()))))) = 2"
proof -
  have c: "PromiseEngine (Some ()) = Inr (play (fresh_engine ()))"
    by (simp add: PromiseEngine_def)
  have n: "calls (run [Fulfil 0] (play (fresh_engine ()))) = 2"
    by (simp add: run_def play_def fresh_engine_def next_iter_def setRunning_def
        on_fulfilled_def settle_def)
  have p: "pending (step Stop (run [Fulfil 0] (play (fresh_engine ())))) = {1}"
    by (simp add: run_def play_def fresh_engine_def next_iter_def setRunning_def
        on_fulfilled_def settle_def stop_def pause_def cancelCurrent_def)
  have "is_cancel Stop" and "\<forall>x\<in>set [Fulfil 1, Reject 0]. is_settlement x" by simp_all
  from no_start_after_stop [OF c this, of "[Fulfil 0]"] c n p show ?thesis by simp
qed

section \<open>LoadNetworkEngine\<close>

text \<open>
  Source: class \<open>LoadNetworkEngine\<close>. A channel's configuration is an object with the
  attributes \<open>apiUrl\<close> and \<open>chunkSize\<close>; \<open>None\<close> is a missing attribute (or a missing
  configuration). The model takes \<open>apiUrl\<close> to be a string and \<open>chunkSize\<close> an integer
  when they are present. JavaScript's \<open>!x\<close> is true of a missing value, of the empty
  string and of the number 0.
\<close>

record channel_config =
  apiUrl :: "string option"
  chunkSize :: "int option"

record load_config =
  download :: "channel_config option"
  upload :: "channel_config option"
  localAddress :: "string option"

definition falsy_string :: "string option \<Rightarrow> bool" where
  "falsy_string v = (case v of None \<Rightarrow> True | Some x \<Rightarrow> x = [])"

definition falsy_number :: "int option \<Rightarrow> bool" where
  "falsy_number v = (case v of None \<Rightarrow> True | Some n \<Rightarrow> n = 0)"

text \<open>The options handed to \<open>fetch\<close>/\<open>nodeFetch\<close>, and one request as \<open>promiseFn\<close> issues it.\<close>

record fetch_options =
  opt_method :: "string option"
  opt_body :: "string option"
  opt_localAddress :: "string option"

record request =
  req_url :: string
  req_nodeFetch :: bool
  req_options :: fetch_options

text \<open>Template literals: an integer in decimal, a missing value as \<open>undefined\<close>. (The
  source prints a number in exponent form from \<open>10^21\<close> on; the decimal digits here are
  what it prints below that.)\<close>

fun show_nat :: "nat \<Rightarrow> string" where
  "show_nat n =
     (if n < 10 then [''0123456789'' ! n]
      else show_nat (n div 10) @ [''0123456789'' ! (n mod 10)])"

declare show_nat.simps [simp del]

definition show_int :: "int \<Rightarrow> string" where
  "show_int i = (if i < 0 then CHR ''-'' # show_nat (nat (- i)) else show_nat (nat i))"

definition template_number :: "int option \<Rightarrow> string" where
  "template_number v = (case v of None \<Rightarrow> ''undefined'' | Some n \<Rightarrow> show_int n)"

definition template_string :: "string option \<Rightarrow> string" where
  "template_string v = (case v of None \<Rightarrow> ''undefined'' | Some x \<Rightarrow> x)"

fun join :: "string \<Rightarrow> string list \<Rightarrow> string" where
  "join sep [] = []"
| "join sep [x] = x"
| "join sep (x # y # ys) = x @ sep @ join sep (y # ys)"

text \<open>
  \<open>String.prototype.repeat\<close>: a negative count throws a RangeError, a missing count is 0,
  and the engine throws a RangeError when the result would be longer than its longest
  string. \<open>max_string_length\<close> is that length in the engine Node runs on (V8 on a
  64-bit platform, \<open>2^29 - 24\<close>).
\<close>

definition max_string_length :: nat where
  "max_string_length = 536870888"

definition repeat :: "string \<Rightarrow> int option \<Rightarrow> js_error + string" where
  "repeat x count =
     (case count of
        None \<Rightarrow> Inr []
      | Some n \<Rightarrow>
          if n < 0 then Inl (RangeError (''Invalid count value: '' @ show_int n))
          else if length x * nat n > max_string_length
            then Inl (RangeError ''Invalid string length'')
          else Inr (concat (replicate (nat n) x)))"

text \<open>The two checks of the \<open>forEach\<close> over the supplied configurations.\<close>

definition check_config :: "channel_config \<Rightarrow> string \<Rightarrow> js_error option" where
  "check_config cfg type =
     (if falsy_string (apiUrl cfg) then Some (Error (''Missing '' @ type @ '' apiUrl argument''))
      else if falsy_number (chunkSize cfg)
        then Some (Error (''Missing '' @ type @ '' chunkSize argument''))
      else None)"

fun check_configs :: "(channel_config option \<times> string) list \<Rightarrow> js_error option" where
  "check_configs [] = None"
| "check_configs ((None, type) # rest) = check_configs rest"
| "check_configs ((Some cfg, type) # rest) =
     (case check_config cfg type of Some e \<Rightarrow> Some e | None \<Rightarrow> check_configs rest)"

text \<open>
  \<open>getLoadEngine\<close>: the operation of the new PromiseEngine issues one request, through
  \<open>nodeFetch\<close> when a local address is configured and through \<open>fetch\<close> otherwise.
\<close>

definition getLoadEngine ::
  "string option \<Rightarrow> string option \<Rightarrow> (string \<times> string) list \<Rightarrow> fetch_options \<Rightarrow>
   js_error + request promise_engine" where
  "getLoadEngine la url qsParams fetchOptions =
     (let finalFetchOptions =
            (if falsy_string la then fetchOptions else fetchOptions\<lparr>opt_localAddress := la\<rparr>)
      in PromiseEngine (Some
           \<lparr>req_url = template_string url @ ''?'' @ join ''&'' (map (\<lambda>(k, v). k @ ''='' @ v) qsParams),
            req_nodeFetch = (\<not> falsy_string la),
            req_options = finalFetchOptions\<rparr>))"

definition no_options :: fetch_options where
  "no_options = \<lparr>opt_method = None, opt_body = None, opt_localAddress = None\<rparr>"

definition push_download ::
  "load_config \<Rightarrow> js_error + request promise_engine list" where
  "push_download cfg =
     (case download cfg of
        None \<Rightarrow> Inr []
      | Some d \<Rightarrow>
          (case getLoadEngine (localAddress cfg) (apiUrl d)
                  [(''bytes'', template_number (chunkSize d))] no_options of
             Inl e \<Rightarrow> Inl e
           | Inr eng \<Rightarrow> Inr [eng]))"

definition push_upload ::
  "load_config \<Rightarrow> request promise_engine list \<Rightarrow> js_error + request promise_engine list" where
  "push_upload cfg engines =
     (case upload cfg of
        None \<Rightarrow> Inr engines
      | Some u \<Rightarrow>
          (case repeat ''0'' (chunkSize u) of
             Inl e \<Rightarrow> Inl e
           | Inr filler \<Rightarrow>
               (case getLoadEngine (localAddress cfg) (apiUrl u) []
                       \<lparr>opt_method = Some ''POST'', opt_body = Some filler,
                        opt_localAddress = None\<rparr> of
                  Inl e \<Rightarrow> Inl e
                | Inr eng \<Rightarrow> Inr (engines @ [eng]))))"

text \<open>The constructor: the value is the list \<open>#engines\<close>, or the error thrown.\<close>

definition LoadNetworkEngine :: "load_config \<Rightarrow> js_error + request promise_engine list" where
  "LoadNetworkEngine cfg =
     (if download cfg = None \<and> upload cfg = None
        then Inl (Error ''Missing at least one of download/upload config'')
      else
        (case check_configs [(download cfg, ''download''), (upload cfg, ''upload'')] of
           Some e \<Rightarrow> Inl e
         | None \<Rightarrow>
             (case push_download cfg of
                Inl e \<Rightarrow> Inl e
              | Inr engines \<Rightarrow> push_upload cfg engines)))"

definition engines_pause :: "'r promise_engine list \<Rightarrow> 'r promise_engine list" where
  "engines_pause engines = map pause engines"

definition engines_stop :: "'r promise_engine list \<Rightarrow> 'r promise_engine list" where
  "engines_stop engines = engines_pause engines"

definition engines_play :: "'r promise_engine list \<Rightarrow> 'r promise_engine list" where
  "engines_play engines = map play engines"

text \<open>The outcome of a construction: it threw, whatever the error.\<close>

definition throws :: "js_error + 'a \<Rightarrow> bool" where
  "throws r = (case r of Inl e \<Rightarrow> True | Inr v \<Rightarrow> False)"

text \<open>What the constructor checks of a supplied configuration, and what the
  specification asks of it.\<close>

definition present_config :: "channel_config option \<Rightarrow> bool" where
  "present_config c =
     (case c of None \<Rightarrow> True
      | Some cfg \<Rightarrow> \<not> falsy_string (apiUrl cfg) \<and> \<not> falsy_number (chunkSize cfg))"

definition positive_config :: "channel_config option \<Rightarrow> bool" where
  "positive_config c =
     (case c of None \<Rightarrow> True
      | Some cfg \<Rightarrow> \<not> falsy_string (apiUrl cfg) \<and> (case chunkSize cfg of None \<Rightarrow> False | Some n \<Rightarrow> 0 < n))"

text \<open>The filler body of the upload channel can be built: the chunk size, when
  there is one, is not negative and not beyond the longest string.\<close>

definition filler_fits :: "channel_config option \<Rightarrow> bool" where
  "filler_fits c =
     (case c of None \<Rightarrow> True
      | Some cfg \<Rightarrow>
          (case chunkSize cfg of None \<Rightarrow> True
           | Some n \<Rightarrow> 0 \<le> n \<and> nat n \<le> max_string_length))"

definition supplied :: "load_config \<Rightarrow> bool" where
  "supplied cfg \<longleftrightarrow> download cfg \<noteq> None \<or> upload cfg \<noteq> None"

subsection \<open>Claims about construction\<close>

lemma constructed_engine:
  "running (play (fresh_engine f)) \<and> calls (play (fresh_engine f)) = 1 \<and>
   pending (play (fresh_engine f)) = {0} \<and> trace (play (fresh_engine f)) = [Started 0] \<and>
   currentPromise (play (fresh_engine f)) = Some 0"
  by (simp add: play_def fresh_engine_def next_iter_def setRunning_def)

lemma play_running: "running s \<Longrightarrow> play s = s"
  by (simp add: play_def)

lemma getLoadEngine_constructs:
  "\<exists>r. getLoadEngine la url qs fo = Inr (play (fresh_engine r))"
  unfolding getLoadEngine_def PromiseEngine_def Let_def by (simp only: option.case) blast

lemma push_download_constructs:
  "\<exists>engines. push_download cfg = Inr engines \<and>
     length engines = (if download cfg = None then 0 else 1) \<and>
     (\<forall>s\<in>set engines. \<exists>r. s = play (fresh_engine r))"
proof (cases "download cfg")
  case None
  then show ?thesis by (simp add: push_download_def)
next
  case (Some d)
  obtain r where "getLoadEngine (localAddress cfg) (apiUrl d)
      [(''bytes'', template_number (chunkSize d))] no_options = Inr (play (fresh_engine r))"
    using getLoadEngine_constructs by blast
  with Some show ?thesis by (auto simp: push_download_def)
qed

lemma push_upload_result:
  assumes "push_upload cfg engines = Inr engines'"
  shows "length engines' = length engines + (if upload cfg = None then 0 else 1) \<and>
         (\<forall>s\<in>set engines'. s \<in> set engines \<or> (\<exists>r. s = play (fresh_engine r)))"
proof (cases "upload cfg")
  case None
  with assms show ?thesis by (simp add: push_upload_def)
next
  case (Some u)
  show ?thesis
  proof (cases "repeat ''0'' (chunkSize u)")
    case (Inl e)
    with Some assms show ?thesis by (simp add: push_upload_def)
  next
    case (Inr filler)
    obtain r where "getLoadEngine (localAddress cfg) (apiUrl u) []
        \<lparr>opt_method = Some ''POST'', opt_body = Some filler, opt_localAddress = None\<rparr>
        = Inr (play (fresh_engine r))"
      using getLoadEngine_constructs by blast
    with Some Inr assms show ?thesis by (auto simp: push_upload_def)
  qed
qed

lemma push_upload_throws:
  "throws (push_upload cfg engines) \<longleftrightarrow> \<not> filler_fits (upload cfg)"
proof (cases "upload cfg")
  case None
  then show ?thesis by (simp add: push_upload_def throws_def filler_fits_def)
next
  case (Some u)
  have g: "\<And>filler. \<exists>r. getLoadEngine (localAddress cfg) (apiUrl u) []
        \<lparr>opt_method = Some ''POST'', opt_body = Some filler, opt_localAddress = None\<rparr>
        = Inr (play (fresh_engine r))"
    using getLoadEngine_constructs by blast
  show ?thesis
  proof (cases "chunkSize u")
    case None
    with Some g [of "[]"] show ?thesis
      by (auto simp: push_upload_def throws_def repeat_def filler_fits_def)
  next
    case (Some n)
    with \<open>upload cfg = Some u\<close> g [of "concat (replicate (nat n) ''0'')"] show ?thesis
      by (auto simp: push_upload_def throws_def repeat_def filler_fits_def)
  qed
qed

lemma check_configs_two:
  "check_configs [(d, ''download''), (u, ''upload'')] = None \<longleftrightarrow>
     present_config d \<and> present_config u"
  by (cases d; cases u)
     (auto simp: present_config_def check_config_def split: option.splits)

lemma positive_present: "positive_config c \<Longrightarrow> present_config c"
  by (auto simp: positive_config_def present_config_def falsy_number_def
      split: option.splits)

text \<open>
  C4, as amended. The claim as stated fails: the constructor tests \<open>!chunkSize\<close>,
  which rejects a missing and a zero chunk size but lets a negative one through, and a
  download channel does nothing else with it. What holds: construction throws if and
  only if neither \<open>download\<close> nor \<open>upload\<close> is supplied, or a supplied configuration has
  a missing or empty \<open>apiUrl\<close>, or a supplied configuration has a missing or zero
  \<open>chunkSize\<close>, or the \<open>chunkSize\<close> of \<open>upload\<close> is negative or beyond the longest string
  (the filler body cannot be built). So a configuration that supplies at least one
  channel, each with a non-empty \<open>apiUrl\<close> and a positive \<open>chunkSize\<close>, the one of
  \<open>upload\<close> within the longest string, constructs without throwing.
\<close>

theorem construction_fails_iff:
  "(throws (LoadNetworkEngine cfg) \<longleftrightarrow>
      \<not> supplied cfg \<or> \<not> present_config (download cfg) \<or> \<not> present_config (upload cfg) \<or>
      \<not> filler_fits (upload cfg)) \<and>
   (supplied cfg \<and> positive_config (download cfg) \<and> positive_config (upload cfg) \<and>
    filler_fits (upload cfg) \<longrightarrow>
      \<not> throws (LoadNetworkEngine cfg))"
proof -
  have iff: "throws (LoadNetworkEngine cfg) \<longleftrightarrow>
      \<not> supplied cfg \<or> \<not> present_config (download cfg) \<or> \<not> present_config (upload cfg) \<or>
      \<not> filler_fits (upload cfg)"
  proof (cases "supplied cfg")
    case False
    then show ?thesis
      by (simp add: supplied_def LoadNetworkEngine_def throws_def)
  next
    case sup: True
    show ?thesis
    proof (cases "check_configs [(download cfg, ''download''), (upload cfg, ''upload'')]")
      case (Some e)
      with sup have "throws (LoadNetworkEngine cfg)"
        by (auto simp: supplied_def LoadNetworkEngine_def throws_def)
      moreover from Some have "\<not> (present_config (download cfg) \<and> present_config (upload cfg))"
        using check_configs_two [of "download cfg" "upload cfg"] by simp
      ultimately show ?thesis by blast
    next
      case None
      then have pres: "present_config (download cfg) \<and> present_config (upload cfg)"
        by (simp add: check_configs_two)
      obtain engines where d: "push_download cfg = Inr engines"
        using push_download_constructs by blast
      from None d sup have "LoadNetworkEngine cfg = push_upload cfg engines"
        by (auto simp: supplied_def LoadNetworkEngine_def)
      then have "throws (LoadNetworkEngine cfg) \<longleftrightarrow> \<not> filler_fits (upload cfg)"
        by (simp add: push_upload_throws)
      with sup pres show ?thesis by simp
    qed
  qed
  have "\<not> throws (LoadNetworkEngine cfg)"
    if "supplied cfg \<and> positive_config (download cfg) \<and> positive_config (upload cfg) \<and>
        filler_fits (upload cfg)"
    using that iff by (simp add: positive_present)
  with iff show ?thesis by blast
qed

theorem construction_fails_iff_witness:
  "supplied \<lparr>download = None,
             upload = Some \<lparr>apiUrl = Some ''https://x/test'', chunkSize = Some 16\<rparr>,
             localAddress = None\<rparr> \<and>
   positive_config (Some \<lparr>apiUrl = Some ''https://x/test'', chunkSize = Some 16\<rparr>) \<and>
   filler_fits (Some \<lparr>apiUrl = Some ''https://x/test'', chunkSize = Some 16\<rparr>) \<and>
   \<not> throws (LoadNetworkEngine \<lparr>download = None,
             upload = Some \<lparr>apiUrl = Some ''https://x/test'', chunkSize = Some 16\<rparr>,
             localAddress = None\<rparr>) \<and>
   \<not> filler_fits (Some \<lparr>apiUrl = Some ''https://x/test'', chunkSize = Some 536870889\<rparr>) \<and>
   throws (LoadNetworkEngine \<lparr>download = None,
             upload = Some \<lparr>apiUrl = Some ''https://x/test'', chunkSize = Some 536870889\<rparr>,
             localAddress = None\<rparr>) \<and>
   throws (LoadNetworkEngine \<lparr>download = None,
             upload = Some \<lparr>apiUrl = Some ''https://x/test'', chunkSize = Some (- 1)\<rparr>,
             localAddress = None\<rparr>) \<and>
   throws (LoadNetworkEngine \<lparr>download = Some \<lparr>apiUrl = Some ''https://x/test'', chunkSize = Some 0\<rparr>,
             upload = None, localAddress = None\<rparr>)"
  using construction_fails_iff [of "\<lparr>download = None,
             upload = Some \<lparr>apiUrl = Some ''https://x/test'', chunkSize = Some 16\<rparr>,
             localAddress = None\<rparr>"]
    construction_fails_iff [of "\<lparr>download = None,
             upload = Some \<lparr>apiUrl = Some ''https://x/test'', chunkSize = Some 536870889\<rparr>,
             localAddress = None\<rparr>"]
    construction_fails_iff [of "\<lparr>download = None,
             upload = Some \<lparr>apiUrl = Some ''https://x/test'', chunkSize = Some (- 1)\<rparr>,
             localAddress = None\<rparr>"]
    construction_fails_iff [of "\<lparr>download = Some \<lparr>apiUrl = Some ''https://x/test'', chunkSize = Some 0\<rparr>,
             upload = None, localAddress = None\<rparr>"]
  by (simp add: supplied_def positive_config_def present_config_def falsy_string_def
      falsy_number_def filler_fits_def max_string_length_def)

text \<open>
  The errors thrown in two of these cases, evaluated on the constructor itself: a
  negative \<open>chunkSize\<close> of \<open>upload\<close> leaves through \<open>repeat\<close>, a zero \<open>chunkSize\<close> through
  the check.
\<close>

lemma negative_upload_chunkSize:
  "LoadNetworkEngine \<lparr>download = None,
       upload = Some \<lparr>apiUrl = Some ''https://x/test'', chunkSize = Some (- 1)\<rparr>,
       localAddress = None\<rparr> = Inl (RangeError ''Invalid count value: -1'')"
  by (simp add: LoadNetworkEngine_def check_config_def push_download_def push_upload_def
      falsy_string_def falsy_number_def repeat_def show_int_def show_nat.simps [of "Suc 0"])

lemma zero_download_chunkSize:
  "LoadNetworkEngine \<lparr>download = Some \<lparr>apiUrl = Some ''https://x/test'', chunkSize = Some 0\<rparr>,
       upload = None, localAddress = None\<rparr> =
     Inl (Error ''Missing download chunkSize argument'')"
  by (simp add: LoadNetworkEngine_def check_config_def falsy_string_def falsy_number_def)

text \<open>
  The counterexample to C4 as stated: a download configuration whose \<open>chunkSize\<close> is
  \<open>-1\<close> is not rejected. The constructor returns one running engine.
\<close>

theorem negative_chunkSize_counterexample:
  "\<not> positive_config (Some \<lparr>apiUrl = Some ''https://x/test'', chunkSize = Some (- 1)\<rparr>) \<and>
   \<not> throws (LoadNetworkEngine
       \<lparr>download = Some \<lparr>apiUrl = Some ''https://x/test'', chunkSize = Some (- 1)\<rparr>,
        upload = None, localAddress = None\<rparr>) \<and>
   map promiseFn (projr (LoadNetworkEngine
       \<lparr>download = Some \<lparr>apiUrl = Some ''https://x/test'', chunkSize = Some (- 1)\<rparr>,
        upload = None, localAddress = None\<rparr>)) =
     [\<lparr>req_url = ''https://x/test?bytes=-1'', req_nodeFetch = False,
       req_options = no_options\<rparr>]"
  by (simp add: positive_config_def falsy_string_def falsy_number_def throws_def
      LoadNetworkEngine_def check_config_def push_download_def push_upload_def
      getLoadEngine_def PromiseEngine_def template_number_def template_string_def
      show_int_def show_nat.simps [of "Suc 0"] play_def fresh_engine_def next_iter_def
      setRunning_def)

text \<open>
  C10. The constructor of PromiseEngine returns a running engine whose first operation
  has been started, and as long as neither \<open>pause()\<close> nor \<open>stop()\<close> is called, \<open>play()\<close>
  changes nothing. Every LoadNetworkEngine that constructs holds one such engine for
  each configured channel, download first, and its \<open>play()\<close> changes nothing.
\<close>

theorem construction_starts_running:
  "(PromiseEngine (Some f) = Inr s \<longrightarrow>
      running s \<and> calls s = 1 \<and> pending s = {0} \<and> trace s = [Started 0] \<and>
      ((\<forall>e\<in>set es. \<not> is_cancel e) \<longrightarrow> step Play (run es s) = run es s)) \<and>
   (LoadNetworkEngine cfg = Inr engines \<longrightarrow>
      length engines = (if download cfg = None then 0 else 1) + (if upload cfg = None then 0 else 1) \<and>
      (\<forall>s\<in>set engines. running s \<and> calls s = 1 \<and> pending s = {0} \<and> trace s = [Started 0]) \<and>
      engines_play engines = engines)"
proof (intro conjI impI)
  assume c: "PromiseEngine (Some f) = Inr s"
  then have s: "s = play (fresh_engine f)" by (simp add: PromiseEngine_def)
  show "running s" "calls s = 1" "pending s = {0}" "trace s = [Started 0]"
    unfolding s by (simp_all add: constructed_engine)
  assume "\<forall>e\<in>set es. \<not> is_cancel e"
  with never_canceled_constructed have "never_canceled (fold step es (play (fresh_engine f)))"
    by (rule never_canceled_fold)
  then have "running (run es s)" by (simp add: s run_def never_canceled_def)
  then show "step Play (run es s) = run es s" by (simp add: play_running)
next
  assume c: "LoadNetworkEngine cfg = Inr engines"
  obtain ds where d: "push_download cfg = Inr ds"
    and dl: "length ds = (if download cfg = None then 0 else 1)"
    and de: "\<forall>s\<in>set ds. \<exists>r. s = play (fresh_engine r)"
    using push_download_constructs by blast
  from c d have u: "push_upload cfg ds = Inr engines"
    by (auto simp: LoadNetworkEngine_def split: if_splits option.splits)
  note r = push_upload_result [OF u]
  show "length engines = (if download cfg = None then 0 else 1) + (if upload cfg = None then 0 else 1)"
    using r dl by simp
  have all: "\<forall>s\<in>set engines. \<exists>r. s = play (fresh_engine r)"
    using r de by blast
  then show e: "\<forall>s\<in>set engines. running s \<and> calls s = 1 \<and> pending s = {0} \<and> trace s = [Started 0]"
    using constructed_engine by metis
  then have "map play engines = map (\<lambda>s. s) engines"
    by (intro map_cong) (simp_all add: play_running)
  then show "engines_play engines = engines" by (simp add: engines_play_def)
qed

lemma show_nat_1000: "show_nat 1000 = ''1000''"
  by code_simp

lemma replicate_16: "replicate 16 x = [x, x, x, x, x, x, x, x, x, x, x, x, x, x, x, x]"
  by (simp add: eval_nat_numeral)

lemma both_channels_constructed:
  "LoadNetworkEngine
     \<lparr>download = Some \<lparr>apiUrl = Some ''https://x/test'', chunkSize = Some 1000\<rparr>,
      upload = Some \<lparr>apiUrl = Some ''https://x/test'', chunkSize = Some 16\<rparr>,
      localAddress = Some ''10.0.0.2''\<rparr> =
   Inr [play (fresh_engine
          \<lparr>req_url = ''https://x/test?bytes=1000'', req_nodeFetch = True,
           req_options = \<lparr>opt_method = None, opt_body = None,
                          opt_localAddress = Some ''10.0.0.2''\<rparr>\<rparr>),
        play (fresh_engine
          \<lparr>req_url = ''https://x/test?'', req_nodeFetch = True,
           req_options = \<lparr>opt_method = Some ''POST'', opt_body = Some ''0000000000000000'',
                          opt_localAddress = Some ''10.0.0.2''\<rparr>\<rparr>)]"
  by (simp add: LoadNetworkEngine_def check_config_def push_download_def push_upload_def
      getLoadEngine_def PromiseEngine_def template_number_def template_string_def
      falsy_string_def falsy_number_def show_int_def show_nat_1000 no_options_def
      repeat_def max_string_length_def replicate_16)

theorem construction_starts_running_witness:
  "PromiseEngine (Some ()) = Inr (play (fresh_engine ())) \<and>
   running (play (fresh_engine ())) \<and>
   list_all (\<lambda>e. \<not> is_cancel e) [Fulfil 0, Reject 1] \<and>
   step Play (run [Fulfil 0, Reject 1] (play (fresh_engine ()))) =
     run [Fulfil 0, Reject 1] (play (fresh_engine ())) \<and>
   length (projr (LoadNetworkEngine
     \<lparr>download = Some \<lparr>apiUrl = Some ''https://x/test'', chunkSize = Some 1000\<rparr>,
      upload = Some \<lparr>apiUrl = Some ''https://x/test'', chunkSize = Some 16\<rparr>,
      localAddress = Some ''10.0.0.2''\<rparr>)) = 2 \<and>
   list_all running (projr (LoadNetworkEngine
     \<lparr>download = Some \<lparr>apiUrl = Some ''https://x/test'', chunkSize = Some 1000\<rparr>,
      upload = Some \<lparr>apiUrl = Some ''https://x/test'', chunkSize = Some 16\<rparr>,
      localAddress = Some ''10.0.0.2''\<rparr>)) \<and>
   engines_play (projr (LoadNetworkEngine
     \<lparr>download = Some \<lparr>apiUrl = Some ''https://x/test'', chunkSize = Some 1000\<rparr>,
      upload = Some \<lparr>apiUrl = Some ''https://x/test'', chunkSize = Some 16\<rparr>,
      localAddress = Some ''10.0.0.2''\<rparr>)) =
    projr (LoadNetworkEngine
     \<lparr>download = Some \<lparr>apiUrl = Some ''https://x/test'', chunkSize = Some 1000\<rparr>,
      upload = Some \<lparr>apiUrl = Some ''https://x/test'', chunkSize = Some 16\<rparr>,
      localAddress = Some ''10.0.0.2''\<rparr>)"
proof -
  have c: "PromiseEngine (Some ()) = Inr (play (fresh_engine ()))"
    by (simp add: PromiseEngine_def)
  have f: "\<forall>e\<in>set [Fulfil 0, Reject 1]. \<not> is_cancel e" by simp
  show ?thesis
    using construction_starts_running
      [of "()" "play (fresh_engine ())" "[Fulfil 0, Reject 1]"
        "\<lparr>download = Some \<lparr>apiUrl = Some ''https://x/test'', chunkSize = Some 1000\<rparr>,
          upload = Some \<lparr>apiUrl = Some ''https://x/test'', chunkSize = Some 16\<rparr>,
          localAddress = Some ''10.0.0.2''\<rparr>"
        "[play (fresh_engine
          \<lparr>req_url = ''https://x/test?bytes=1000'', req_nodeFetch = True,
           req_options = \<lparr>opt_method = None, opt_body = None,
                          opt_localAddress = Some ''10.0.0.2''\<rparr>\<rparr>),
        play (fresh_engine
          \<lparr>req_url = ''https://x/test?'', req_nodeFetch = True,
           req_options = \<lparr>opt_method = Some ''POST'', opt_body = Some ''0000000000000000'',
                          opt_localAddress = Some ''10.0.0.2''\<rparr>\<rparr>)]"]
      c f both_channels_constructed
    by simp
qed

section \<open>ReachabilityEngine\<close>

text \<open>
  Source: class \<open>ReachabilityEngine\<close>. The value passed as \<open>error\<close> is whatever the
  request promise rejected with, or the string \<open>'Request timeout'\<close>. A verdict is the
  object handed to \<open>onFinished\<close>: \<open>targetUrl\<close>, \<open>reachable\<close> and the rest (\<open>response\<close> or
  \<open>error\<close>).
\<close>

datatype js_value = ErrorObject js_error | StringValue string

record 'r verdict =
  targetUrl :: string
  reachable :: bool
  response :: "'r option"
  error :: "js_value option"

record reach_options =
  timeout :: "int option"
  fetchOptions :: "fetch_options option"
  ro_localAddress :: "string option"

text \<open>
  The state after the constructor has run: the latch \<open>finished\<close>, the calls of
  \<open>onFinished\<close> so far (oldest first), the request that was issued and whether its
  promise is still pending, and the delay of the timer while it is armed.
\<close>

record 'r reachability =
  finished :: bool
  onFinished :: "'r verdict list"
  issued :: request
  request_pending :: bool
  timer :: "int option"

definition finish ::
  "string \<Rightarrow> bool \<Rightarrow> 'r option \<Rightarrow> js_value option \<Rightarrow> 'r reachability \<Rightarrow> 'r reachability" where
  "finish url r resp err s =
     (if finished s then s
      else s\<lparr>finished := True,
             onFinished := onFinished s @
               [\<lparr>targetUrl = url, reachable = r, response = resp, error = err\<rparr>]\<rparr>)"

text \<open>The default parameters: \<open>timeout = -1\<close>, \<open>fetchOptions = {}\<close>, \<open>localAddress = null\<close>.\<close>

definition timeout_of :: "reach_options \<Rightarrow> int" where
  "timeout_of opts = (case timeout opts of None \<Rightarrow> - 1 | Some t \<Rightarrow> t)"

definition fetchOptions_of :: "reach_options \<Rightarrow> fetch_options" where
  "fetchOptions_of opts = (case fetchOptions opts of None \<Rightarrow> no_options | Some fo \<Rightarrow> fo)"

definition ReachabilityEngine :: "string \<Rightarrow> reach_options \<Rightarrow> 'r reachability" where
  "ReachabilityEngine url opts =
     (let finalFetchOptions =
            (if falsy_string (ro_localAddress opts) then fetchOptions_of opts
             else (fetchOptions_of opts)\<lparr>opt_localAddress := ro_localAddress opts\<rparr>)
      in \<lparr>finished = False,
          onFinished = [],
          issued = \<lparr>req_url = url, req_nodeFetch = (\<not> falsy_string (ro_localAddress opts)),
                    req_options = finalFetchOptions\<rparr>,
          request_pending = True,
          timer = (if timeout_of opts > 0 then Some (timeout_of opts) else None)\<rparr>)"

text \<open>
  What can happen after construction: the request promise is fulfilled or rejected
  (once), or the timer fires (once, and only when it was armed). The callbacks are the
  ones the constructor registered; \<open>url\<close> is the \<open>targetUrl\<close> they close over.
\<close>

datatype 'r reach_event = RequestFulfilled 'r | RequestRejected js_value | TimerFired

fun reach_step :: "string \<Rightarrow> 'r reach_event \<Rightarrow> 'r reachability \<Rightarrow> 'r reachability" where
  "reach_step url (RequestFulfilled r) s =
     (if request_pending s
      then finish url True (Some r) None (s\<lparr>request_pending := False\<rparr>) else s)"
| "reach_step url (RequestRejected e) s =
     (if request_pending s
      then finish url False None (Some e) (s\<lparr>request_pending := False\<rparr>) else s)"
| "reach_step url TimerFired s =
     (case timer s of
        None \<Rightarrow> s
      | Some t \<Rightarrow> finish url False None (Some (StringValue ''Request timeout'')) (s\<lparr>timer := None\<rparr>))"

definition reach_run :: "string \<Rightarrow> 'r reach_event list \<Rightarrow> 'r reachability \<Rightarrow> 'r reachability" where
  "reach_run url es s = fold (reach_step url) es s"

text \<open>An event that settles something for the given options: any settlement of the
  request, and the timer when the timeout is positive.\<close>

fun settles :: "reach_options \<Rightarrow> 'r reach_event \<Rightarrow> bool" where
  "settles opts TimerFired = (timeout_of opts > 0)"
| "settles opts _ = True"

definition reach_inv :: "reach_options \<Rightarrow> 'r reachability \<Rightarrow> bool" where
  "reach_inv opts s \<longleftrightarrow>
     length (onFinished s) = (if finished s then 1 else 0) \<and>
     (\<not> finished s \<longrightarrow> request_pending s \<and> (timer s \<noteq> None \<longleftrightarrow> timeout_of opts > 0))"

lemma reach_inv_constructed: "reach_inv opts (ReachabilityEngine url opts)"
  by (simp add: reach_inv_def ReachabilityEngine_def Let_def)

lemma reach_inv_step: "reach_inv opts s \<Longrightarrow> reach_inv opts (reach_step url e s)"
  by (cases e) (auto simp: reach_inv_def finish_def split: option.splits)

lemma reach_inv_fold: "reach_inv opts s \<Longrightarrow> reach_inv opts (fold (reach_step url) es s)"
  by (induction es arbitrary: s) (simp_all add: reach_inv_step)

lemma finished_step: "finished s \<Longrightarrow> finished (reach_step url e s)"
  by (cases e) (auto simp: finish_def split: option.splits)

lemma finished_fold: "finished s \<Longrightarrow> finished (fold (reach_step url) es s)"
  by (induction es arbitrary: s) (simp_all add: finished_step)

lemma settles_finishes:
  "reach_inv opts s \<Longrightarrow> settles opts e \<Longrightarrow> finished (reach_step url e s)"
  by (cases e) (auto simp: reach_inv_def finish_def split: option.splits)

lemma settled_fold:
  "reach_inv opts s \<Longrightarrow> \<exists>e\<in>set es. settles opts e \<Longrightarrow> finished (fold (reach_step url) es s)"
proof (induction es arbitrary: s)
  case Nil
  then show ?case by simp
next
  case (Cons e es)
  show ?case
  proof (cases "settles opts e")
    case True
    with Cons.prems(1) have "finished (reach_step url e s)" by (rule settles_finishes)
    then show ?thesis by (simp add: finished_fold)
  next
    case False
    with Cons.prems(2) have "\<exists>e\<in>set es. settles opts e" by simp
    with Cons.IH [OF reach_inv_step [OF Cons.prems(1)]] show ?thesis by simp
  qed
qed

lemma latch_step: "finished s \<Longrightarrow> onFinished (reach_step url e s) = onFinished s"
  by (cases e) (auto simp: finish_def split: option.splits)

lemma latch_fold: "finished s \<Longrightarrow> onFinished (fold (reach_step url) es s) = onFinished s"
proof (induction es arbitrary: s)
  case Nil
  then show ?case by simp
next
  case (Cons e es)
  from Cons.prems have "finished (reach_step url e s)" by (rule finished_step)
  then have "onFinished (fold (reach_step url) es (reach_step url e s)) =
      onFinished (reach_step url e s)" by (rule Cons.IH)
  with Cons.prems show ?case by (simp add: latch_step)
qed

subsection \<open>Claims about the reachability check\<close>

text \<open>
  C2. Whatever happens after construction, in whatever order (the request is fulfilled
  or rejected, the timer fires, both, or events that settle nothing), \<open>onFinished\<close> is
  called at most once; and as soon as the request has settled or an armed timer has
  fired, it has been called exactly once.
\<close>

theorem onFinished_exactly_once:
  "length (onFinished (reach_run url es (ReachabilityEngine url opts))) \<le> 1 \<and>
   ((\<exists>e\<in>set es. settles opts e) \<longrightarrow>
      length (onFinished (reach_run url es (ReachabilityEngine url opts))) = 1)"
proof -
  have inv: "reach_inv opts (reach_run url es (ReachabilityEngine url opts))"
    unfolding reach_run_def by (intro reach_inv_fold reach_inv_constructed)
  then have le: "length (onFinished (reach_run url es (ReachabilityEngine url opts))) \<le> 1"
    by (simp add: reach_inv_def)
  have "length (onFinished (reach_run url es (ReachabilityEngine url opts))) = 1"
    if "\<exists>e\<in>set es. settles opts e"
  proof -
    have "finished (reach_run url es (ReachabilityEngine url opts))"
      unfolding reach_run_def using reach_inv_constructed that by (rule settled_fold)
    with inv show ?thesis by (simp add: reach_inv_def)
  qed
  with le show ?thesis by blast
qed

theorem onFinished_exactly_once_witness:
  "onFinished (reach_run ''https://x/'' [RequestFulfilled (200::nat), TimerFired]
      (ReachabilityEngine ''https://x/''
         \<lparr>timeout = Some 50, fetchOptions = None, ro_localAddress = None\<rparr>)) =
     [\<lparr>targetUrl = ''https://x/'', reachable = True, response = Some 200, error = None\<rparr>] \<and>
   length (onFinished (reach_run ''https://x/'' [TimerFired, RequestFulfilled (200::nat)]
      (ReachabilityEngine ''https://x/''
         \<lparr>timeout = Some 50, fetchOptions = None, ro_localAddress = None\<rparr>))) = 1"
proof -
  have a: "onFinished (reach_run ''https://x/'' [RequestFulfilled (200::nat), TimerFired]
      (ReachabilityEngine ''https://x/''
         \<lparr>timeout = Some 50, fetchOptions = None, ro_localAddress = None\<rparr>)) =
     [\<lparr>targetUrl = ''https://x/'', reachable = True, response = Some 200, error = None\<rparr>]"
    by (simp add: reach_run_def ReachabilityEngine_def finish_def timeout_of_def Let_def)
  have b: "\<exists>e\<in>set [TimerFired, RequestFulfilled (200::nat)].
      settles \<lparr>timeout = Some 50, fetchOptions = None, ro_localAddress = None\<rparr> e"
    by (simp add: timeout_of_def)
  from onFinished_exactly_once [of "''https://x/''" "[TimerFired, RequestFulfilled (200::nat)]"
      "\<lparr>timeout = Some 50, fetchOptions = None, ro_localAddress = None\<rparr>"] a b
  show ?thesis by blast
qed

text \<open>
  C5. The verdict is decided by what settles first. If the request is fulfilled first,
  the one verdict is \<open>reachable = true\<close> with the response; if it is rejected first,
  \<open>reachable = false\<close> with the rejection value; if the timer fires first (which needs a
  positive configured timeout), \<open>reachable = false\<close> with the string \<open>Request timeout\<close>.
  Later events change nothing. The timer is armed exactly when the configured timeout
  is present and positive, with that delay: with an absent, zero or negative timeout
  there is no timer, and a timer event does nothing.
\<close>

theorem verdict_of_first_settlement:
  "onFinished (reach_run url (RequestFulfilled (r :: 'r) # es) (ReachabilityEngine url opts)) =
     [\<lparr>targetUrl = url, reachable = True, response = Some r, error = None\<rparr>] \<and>
   onFinished (reach_run url (RequestRejected e # es)
       (ReachabilityEngine url opts :: 'r reachability)) =
     [\<lparr>targetUrl = url, reachable = False, response = None, error = Some e\<rparr>] \<and>
   (timeout opts = Some t \<and> 0 < t \<longrightarrow>
      timer (ReachabilityEngine url opts :: 'r reachability) = Some t \<and>
      onFinished (reach_run url (TimerFired # es)
          (ReachabilityEngine url opts :: 'r reachability)) =
        [\<lparr>targetUrl = url, reachable = False, response = None,
          error = Some (StringValue ''Request timeout'')\<rparr>]) \<and>
   (timer (ReachabilityEngine url opts :: 'r reachability) \<noteq> None \<longleftrightarrow>
      (\<exists>d. timeout opts = Some d \<and> 0 < d)) \<and>
   (timeout opts = None \<or> (\<exists>d. timeout opts = Some d \<and> d \<le> 0) \<longrightarrow>
      timer (ReachabilityEngine url opts :: 'r reachability) = None \<and>
      reach_step url TimerFired (ReachabilityEngine url opts :: 'r reachability) =
        ReachabilityEngine url opts)"
proof (intro conjI impI)
  let ?s = "ReachabilityEngine url opts :: 'r reachability"
  have f: "finished (reach_step url (RequestFulfilled r) ?s)"
    by (simp add: ReachabilityEngine_def finish_def Let_def)
  show "onFinished (reach_run url (RequestFulfilled r # es) ?s) =
     [\<lparr>targetUrl = url, reachable = True, response = Some r, error = None\<rparr>]"
    unfolding reach_run_def fold_Cons comp_apply latch_fold [OF f]
    by (simp add: ReachabilityEngine_def finish_def Let_def)
  have g: "finished (reach_step url (RequestRejected e) ?s)"
    by (simp add: ReachabilityEngine_def finish_def Let_def)
  show "onFinished (reach_run url (RequestRejected e # es) ?s) =
     [\<lparr>targetUrl = url, reachable = False, response = None, error = Some e\<rparr>]"
    unfolding reach_run_def fold_Cons comp_apply latch_fold [OF g]
    by (simp add: ReachabilityEngine_def finish_def Let_def)
  show "(timer ?s \<noteq> None) = (\<exists>d. timeout opts = Some d \<and> 0 < d)"
    by (cases "timeout opts") (simp_all add: ReachabilityEngine_def timeout_of_def Let_def)
  {
    assume off: "timeout opts = None \<or> (\<exists>d. timeout opts = Some d \<and> d \<le> 0)"
    then show none: "timer ?s = None"
      by (auto simp: ReachabilityEngine_def timeout_of_def Let_def)
    then show "reach_step url TimerFired ?s = ?s" by simp
  }
  assume t: "timeout opts = Some t \<and> 0 < t"
  then show armed: "timer ?s = Some t"
    by (simp add: ReachabilityEngine_def timeout_of_def Let_def)
  then have h: "finished (reach_step url TimerFired ?s)"
    by (simp add: finish_def ReachabilityEngine_def Let_def)
  show "onFinished (reach_run url (TimerFired # es) ?s) =
        [\<lparr>targetUrl = url, reachable = False, response = None,
          error = Some (StringValue ''Request timeout'')\<rparr>]"
    unfolding reach_run_def fold_Cons comp_apply latch_fold [OF h]
    using t by (simp add: ReachabilityEngine_def timeout_of_def finish_def Let_def)
qed

theorem verdict_of_first_settlement_witness:
  "onFinished (reach_run ''https://x/'' [TimerFired, RequestFulfilled (200::nat)]
      (ReachabilityEngine ''https://x/''
         \<lparr>timeout = Some 50, fetchOptions = None, ro_localAddress = None\<rparr>)) =
     [\<lparr>targetUrl = ''https://x/'', reachable = False, response = None,
       error = Some (StringValue ''Request timeout'')\<rparr>] \<and>
   onFinished (reach_run ''https://x/'' [TimerFired, RequestFulfilled (200::nat)]
      (ReachabilityEngine ''https://x/''
         \<lparr>timeout = None, fetchOptions = None, ro_localAddress = None\<rparr>)) =
     [\<lparr>targetUrl = ''https://x/'', reachable = True, response = Some 200, error = None\<rparr>] \<and>
   onFinished (reach_run ''https://x/'' [TimerFired, RequestFulfilled (200::nat)]
      (ReachabilityEngine ''https://x/''
         \<lparr>timeout = Some 0, fetchOptions = None, ro_localAddress = None\<rparr>)) =
     [\<lparr>targetUrl = ''https://x/'', reachable = True, response = Some 200, error = None\<rparr>] \<and>
   timer (ReachabilityEngine ''https://x/''
         \<lparr>timeout = Some (- 5), fetchOptions = None, ro_localAddress = None\<rparr>
         :: nat reachability) = None"
proof -
  note t1 = verdict_of_first_settlement [of "''https://x/''" "200::nat"
      "[RequestFulfilled (200::nat)]"
      "\<lparr>timeout = Some 50, fetchOptions = None, ro_localAddress = None\<rparr>" _ 50]
  note t2 = verdict_of_first_settlement [of "''https://x/''" "200::nat" "[]"
      "\<lparr>timeout = None, fetchOptions = None, ro_localAddress = None\<rparr>"]
  note t3 = verdict_of_first_settlement [of "''https://x/''" "200::nat" "[]"
      "\<lparr>timeout = Some 0, fetchOptions = None, ro_localAddress = None\<rparr>"]
  note t4 = verdict_of_first_settlement [of "''https://x/''" "200::nat" "[]"
      "\<lparr>timeout = Some (- 5), fetchOptions = None, ro_localAddress = None\<rparr>"]
  from t2 have c2: "reach_run ''https://x/'' [TimerFired, RequestFulfilled (200::nat)]
      (ReachabilityEngine ''https://x/''
         \<lparr>timeout = None, fetchOptions = None, ro_localAddress = None\<rparr>) =
     reach_run ''https://x/'' [RequestFulfilled (200::nat)]
      (ReachabilityEngine ''https://x/''
         \<lparr>timeout = None, fetchOptions = None, ro_localAddress = None\<rparr>)"
    by (simp add: reach_run_def)
  from t3 have c3: "reach_run ''https://x/'' [TimerFired, RequestFulfilled (200::nat)]
      (ReachabilityEngine ''https://x/''
         \<lparr>timeout = Some 0, fetchOptions = None, ro_localAddress = None\<rparr>) =
     reach_run ''https://x/'' [RequestFulfilled (200::nat)]
      (ReachabilityEngine ''https://x/''
         \<lparr>timeout = Some 0, fetchOptions = None, ro_localAddress = None\<rparr>)"
    by (simp add: reach_run_def)
  from t1 t2 t3 t4 c2 c3 show ?thesis by simp
qed

section \<open>nodeFetch (the phased HTTP client)\<close>

text \<open>
  Source: \<open>src/utils/nodeRequest.js\<close>. Times are the readings of \<open>performance.now()\<close>.
  A property of the \<open>timings\<close> object that has not been assigned is \<open>None\<close>; the result of
  arithmetic on such a value (NaN in the source) is \<open>None\<close> too.
\<close>

record timings =
  startTime :: real
  dnsStart :: "real option"
  dnsEnd :: "real option"
  tcpConnectStart :: "real option"
  tcpConnectEnd :: "real option"
  tlsHandshakeStart :: "real option"
  tlsHandshakeEnd :: "real option"
  uploadLatency :: "real option"
  firstByteTime :: "real option"
  downloadLatency :: "real option"
  endTime :: "real option"
  transferSize :: "nat option"

text \<open>
  The response object of Node (\<open>res\<close>): status line, headers (Node delivers the names in
  lower case), protocol version, and whether its socket is a TLS socket.
\<close>

record incoming =
  statusCode :: nat
  statusMessage :: string
  headers :: "string \<rightharpoonup> string"
  httpVersion :: string
  encrypted :: bool

record node_response =
  status :: nat
  statusText :: string
  nr_headers :: "string \<rightharpoonup> string"
  ok :: bool
  body :: string
  bodyUsed :: bool
  nr_timings :: timings

definition NodeResponse :: "incoming \<Rightarrow> string \<Rightarrow> timings \<Rightarrow> node_response" where
  "NodeResponse res b tm =
     \<lparr>status = statusCode res,
      statusText = statusMessage res,
      nr_headers = headers res,
      ok = (statusCode res \<ge> 200 \<and> statusCode res < 300),
      body = b,
      bodyUsed = False,
      nr_timings = tm\<rparr>"

text \<open>\<open>text()\<close>: the body once; a second read rejects.\<close>

definition text_of :: "node_response \<Rightarrow> (js_error + string) \<times> node_response" where
  "text_of r =
     (if bodyUsed r then (Inl (TypeError ''Body already used''), r)
      else (Inr (body r), r\<lparr>bodyUsed := True\<rparr>))"

subsection \<open>parseInt and the sent_bytes pattern\<close>

text \<open>
  \<open>parseInt\<close> with no radix: leading white space is skipped, then an optional sign, then
  a \<open>0x\<close>/\<open>0X\<close> prefix selects radix 16; the longest prefix of digits of the radix is the
  value, and no digit at all gives NaN (\<open>None\<close>). Numbers are mathematical integers here;
  the source rounds values beyond \<open>2^53\<close> to a double.
\<close>

definition digit_values :: "(char \<times> nat) list" where
  "digit_values =
     [(CHR ''0'', 0), (CHR ''1'', 1), (CHR ''2'', 2), (CHR ''3'', 3), (CHR ''4'', 4),
      (CHR ''5'', 5), (CHR ''6'', 6), (CHR ''7'', 7), (CHR ''8'', 8), (CHR ''9'', 9),
      (CHR ''a'', 10), (CHR ''b'', 11), (CHR ''c'', 12), (CHR ''d'', 13), (CHR ''e'', 14),
      (CHR ''f'', 15), (CHR ''A'', 10), (CHR ''B'', 11), (CHR ''C'', 12), (CHR ''D'', 13),
      (CHR ''E'', 14), (CHR ''F'', 15)]"

definition is_digit :: "nat \<Rightarrow> char \<Rightarrow> bool" where
  "is_digit radix c = (case map_of digit_values c of None \<Rightarrow> False | Some d \<Rightarrow> d < radix)"

definition digit_value :: "char \<Rightarrow> nat" where
  "digit_value c = (case map_of digit_values c of None \<Rightarrow> 0 | Some d \<Rightarrow> d)"

definition is_white_space :: "char \<Rightarrow> bool" where
  "is_white_space c \<longleftrightarrow>
     c \<in> set [CHR '' '', CHR 0x09, CHR 0x0A, CHR 0x0B, CHR 0x0C, CHR 0x0D, CHR 0xA0]"

definition digits_value :: "nat \<Rightarrow> string \<Rightarrow> int" where
  "digits_value radix ds = int (foldl (\<lambda>a c. a * radix + digit_value c) 0 ds)"

definition parse_digits :: "nat \<Rightarrow> string \<Rightarrow> int option" where
  "parse_digits radix x =
     (let ds = takeWhile (is_digit radix) x
      in if ds = [] then None else Some (digits_value radix ds))"

definition parse_unsigned :: "string \<Rightarrow> int option" where
  "parse_unsigned x =
     (if take 2 x = ''0x'' \<or> take 2 x = ''0X'' then parse_digits 16 (drop 2 x)
      else parse_digits 10 x)"

definition parse_signed :: "string \<Rightarrow> int option" where
  "parse_signed x =
     (case x of
        [] \<Rightarrow> None
      | c # cs \<Rightarrow>
          if c = CHR ''-'' then map_option uminus (parse_unsigned cs)
          else if c = CHR ''+'' then parse_unsigned cs
          else parse_unsigned x)"

definition parseInt :: "string \<Rightarrow> int option" where
  "parseInt x = parse_signed (dropWhile is_white_space x)"

text \<open>
  \<open>serverTiming.match(/sent_bytes=(\d+)/)\<close>: the leftmost place where \<open>sent_bytes=\<close> is
  followed by a decimal digit; the group is the longest run of digits there.
\<close>

fun match_sent_bytes :: "string \<Rightarrow> string option" where
  "match_sent_bytes [] = None"
| "match_sent_bytes (c # cs) =
     (if take 11 (c # cs) = ''sent_bytes='' \<and> takeWhile (is_digit 10) (drop 11 (c # cs)) \<noteq> []
      then Some (takeWhile (is_digit 10) (drop 11 (c # cs)))
      else match_sent_bytes cs)"

subsection \<open>NodePerformanceResourceTiming\<close>

record perf_entry =
  name :: string
  entryType :: string
  pe_startTime :: real
  duration :: "real option"
  initiatorType :: string
  nextHopProtocol :: string
  workerStart :: real
  redirectStart :: real
  redirectEnd :: real
  fetchStart :: real
  domainLookupStart :: "real option"
  domainLookupEnd :: "real option"
  connectStart :: "real option"
  secureConnectionStart :: "real option"
  connectEnd :: "real option"
  requestStart :: real
  responseStart :: "real option"
  responseEnd :: "real option"
  latency :: "real option"
  pe_transferSize :: "int option"
  encodedBodySize :: nat
  decodedBodySize :: nat

definition minus_time :: "real option \<Rightarrow> real \<Rightarrow> real option" where
  "minus_time a b = map_option (\<lambda>x. x - b) a"

text \<open>The two steps of the \<open>transferSize\<close> computation, lines 73-81 and 83-90.\<close>

definition declared_size :: "incoming \<Rightarrow> nat \<Rightarrow> int option" where
  "declared_size res bodySize =
     (if \<not> falsy_string (headers res ''content-length'')
        then parseInt (template_string (headers res ''content-length''))
      else if headers res ''transfer-encoding'' = Some ''chunked''
        then Some (int bodySize + 200)
      else Some (int bodySize))"

definition empty_response_size :: "incoming \<Rightarrow> int option \<Rightarrow> int option" where
  "empty_response_size res sz =
     (if sz = Some 0 \<and> \<not> falsy_string (headers res ''server-timing'')
      then (case match_sent_bytes (template_string (headers res ''server-timing'')) of
              None \<Rightarrow> sz
            | Some digits \<Rightarrow> parseInt digits)
      else sz)"

definition NodePerformanceResourceTiming ::
  "timings \<Rightarrow> string \<Rightarrow> incoming \<Rightarrow> nat \<Rightarrow> perf_entry" where
  "NodePerformanceResourceTiming tm url res bodySize =
     \<lparr>name = url,
      entryType = ''resource'',
      pe_startTime = startTime tm,
      duration = minus_time (endTime tm) (startTime tm),
      initiatorType = ''fetch'',
      nextHopProtocol = (if httpVersion res = ''2.0'' then ''h2'' else ''http/1.1''),
      workerStart = 0,
      redirectStart = 0,
      redirectEnd = 0,
      fetchStart = startTime tm,
      domainLookupStart = dnsStart tm,
      domainLookupEnd = dnsEnd tm,
      connectStart = tcpConnectStart tm,
      secureConnectionStart = tlsHandshakeStart tm,
      connectEnd = tcpConnectEnd tm,
      requestStart = startTime tm,
      responseStart = firstByteTime tm,
      responseEnd = endTime tm,
      latency = minus_time (firstByteTime tm) (startTime tm),
      pe_transferSize = empty_response_size res (declared_size res bodySize),
      encodedBodySize = bodySize,
      decodedBodySize = bodySize\<rparr>"

subsection \<open>The exchange\<close>

text \<open>
  What the runtime does during one call is the \<open>transport\<close>: the readings of the clock
  in the order the code takes them, the outcome of \<open>dns.lookup\<close>, the outcome of the
  probe socket (an \<open>error\<close> event, or the reading taken in the \<open>connect\<close> handler), and the
  outcome of \<open>https.request\<close> (an \<open>error\<close> event on the request, or a response that is
  delivered up to its \<open>end\<close> event). A chunk is one \<open>data\<close> event: the clock at that moment,
  \<open>chunk.length\<close>, and the text that \<open>body += chunk\<close> appends.
\<close>

record chunk =
  arrival :: real
  chunk_length :: nat
  chunk_text :: string

record exchange =
  res :: incoming
  now_response :: real
  chunks :: "chunk list"
  now_end :: real

record transport =
  now_start :: real
  now_startTime :: real
  now_dnsStart :: real
  dns_lookup :: "js_error + string"
  now_dnsEnd :: real
  now_tcpConnectStart :: real
  now_socketStart :: real
  socket_connect :: "js_error + real"
  https_request :: "js_error + exchange"

text \<open>The variables the callbacks of \<open>https.request\<close> close over.\<close>

record request_state =
  rs_body :: string
  rs_bodySize :: nat
  rs_firstByteTime :: "real option"
  rs_tlsHandshakeEnd :: "real option"
  rs_timings :: timings

text \<open>\<open>!firstByteTime\<close>: true of \<open>null\<close> and of the number 0.\<close>

definition falsy_time :: "real option \<Rightarrow> bool" where
  "falsy_time v = (case v of None \<Rightarrow> True | Some t \<Rightarrow> t = 0)"

text \<open>\<open>method: options.method || 'GET'\<close>, the method the request is sent with.\<close>

definition request_method :: "fetch_options \<Rightarrow> string" where
  "request_method options =
     (if falsy_string (opt_method options) then ''GET'' else template_string (opt_method options))"

text \<open>\<open>measureTCPConnect\<close>: the time from its own start to the \<open>connect\<close> event.\<close>

definition measureTCPConnect :: "transport \<Rightarrow> js_error + real" where
  "measureTCPConnect env =
     (case socket_connect env of
        Inl e \<Rightarrow> Inl e
      | Inr t \<Rightarrow> Inr (t - now_socketStart env))"

text \<open>The response callback (lines 198-207).\<close>

definition on_response :: "fetch_options \<Rightarrow> exchange \<Rightarrow> request_state \<Rightarrow> request_state" where
  "on_response options ex st =
     (if encrypted (res ex) then
        st\<lparr>rs_tlsHandshakeEnd := Some (now_response ex),
           rs_timings := (rs_timings st)
             \<lparr>tlsHandshakeEnd := Some (now_response ex),
              uploadLatency :=
                (if opt_method options = Some ''POST''
                 then Some (now_response ex - startTime (rs_timings st))
                 else uploadLatency (rs_timings st))\<rparr>\<rparr>
      else st)"

text \<open>The \<open>data\<close> handler (lines 209-220).\<close>

definition on_first_byte :: "fetch_options \<Rightarrow> chunk \<Rightarrow> request_state \<Rightarrow> request_state" where
  "on_first_byte options c st =
     (if falsy_time (rs_firstByteTime st) then
        st\<lparr>rs_firstByteTime := Some (arrival c),
           rs_timings := (rs_timings st)
             \<lparr>firstByteTime := Some (arrival c),
              downloadLatency :=
                (if opt_method options = Some ''GET''
                 then Some (arrival c - startTime (rs_timings st))
                 else downloadLatency (rs_timings st))\<rparr>\<rparr>
      else st)"

definition on_data :: "fetch_options \<Rightarrow> chunk \<Rightarrow> request_state \<Rightarrow> request_state" where
  "on_data options c st =
     (let st' = on_first_byte options c st
      in st'\<lparr>rs_body := rs_body st' @ chunk_text c,
             rs_bodySize := rs_bodySize st' + chunk_length c\<rparr>)"

text \<open>The \<open>end\<close> handler (lines 222-229): the response that is resolved, and the
  performance entry that is built beside it.\<close>

definition on_end ::
  "string \<Rightarrow> exchange \<Rightarrow> request_state \<Rightarrow> node_response \<times> perf_entry" where
  "on_end urlStr ex st =
     (let tm = (rs_timings st)\<lparr>endTime := Some (now_end ex),
                                transferSize := Some (rs_bodySize st)\<rparr>
      in (NodeResponse (res ex) (rs_body st) tm,
          NodePerformanceResourceTiming tm urlStr (res ex) (length (rs_body st))))"

definition run_exchange ::
  "string \<Rightarrow> fetch_options \<Rightarrow> timings \<Rightarrow> exchange \<Rightarrow> node_response \<times> perf_entry" where
  "run_exchange urlStr options tm ex =
     on_end urlStr ex
       (fold (on_data options) (chunks ex)
          (on_response options ex
             \<lparr>rs_body = [], rs_bodySize = 0, rs_firstByteTime = None,
              rs_tlsHandshakeEnd = None, rs_timings = tm\<rparr>))"

text \<open>
  The \<open>catch\<close> block of \<open>nodeFetch\<close> (lines 242-245) logs and then calls \<open>reject(error)\<close>.
  No \<open>reject\<close> is in scope there (the function is \<open>async\<close>; the only \<open>reject\<close> is the
  parameter of the executor inside \<open>try\<close>), so the call throws a ReferenceError and the
  promise of \<open>nodeFetch\<close> rejects with that.
\<close>

definition catch_block :: "js_error \<Rightarrow> js_error + 'a" where
  "catch_block err = Inl (ReferenceError ''reject is not defined'')"

text \<open>The timings before the request is sent (lines 157-174).\<close>

definition initial_timings :: "transport \<Rightarrow> timings" where
  "initial_timings env =
     \<lparr>startTime = now_startTime env, dnsStart = None, dnsEnd = None, tcpConnectStart = None,
      tcpConnectEnd = None, tlsHandshakeStart = None, tlsHandshakeEnd = None,
      uploadLatency = None, firstByteTime = None, downloadLatency = None, endTime = None,
      transferSize = None\<rparr>"

definition connected_timings :: "transport \<Rightarrow> real \<Rightarrow> timings" where
  "connected_timings env tcpTime =
     (initial_timings env)
       \<lparr>dnsStart := Some (now_dnsStart env),
        dnsEnd := Some (now_dnsEnd env),
        tcpConnectStart := Some (now_tcpConnectStart env),
        tcpConnectEnd := Some (now_tcpConnectStart env + tcpTime),
        tlsHandshakeStart := Some (now_tcpConnectStart env + tcpTime)\<rparr>"

text \<open>
  \<open>nodeFetch\<close> with the performance entry it builds. An awaited failure (the lookup, the
  probe connection) goes to the \<open>catch\<close> block; an \<open>error\<close> event of the request rejects
  the returned promise with that error.
\<close>

definition nodeFetch_entry ::
  "string \<Rightarrow> fetch_options \<Rightarrow> transport \<Rightarrow> js_error + node_response \<times> perf_entry" where
  "nodeFetch_entry urlStr options env =
     (case dns_lookup env of
        Inl e \<Rightarrow> catch_block e
      | Inr dnsResult \<Rightarrow>
          (case measureTCPConnect env of
             Inl e \<Rightarrow> catch_block e
           | Inr tcpTime \<Rightarrow>
               (case https_request env of
                  Inl e \<Rightarrow> Inl e
                | Inr ex \<Rightarrow>
                    Inr (run_exchange urlStr options (connected_timings env tcpTime) ex))))"

definition nodeFetch :: "string \<Rightarrow> fetch_options \<Rightarrow> transport \<Rightarrow> js_error + node_response" where
  "nodeFetch urlStr options env = map_sum (\<lambda>e. e) fst (nodeFetch_entry urlStr options env)"

subsection \<open>Phase order, clock and sample exchanges\<close>

text \<open>
  The phase timestamps of a timing record in the order of the specification; they are
  ordered when every one is defined and the list is non-decreasing. The clock is
  monotone when the readings, in the order the code takes them, are non-decreasing.
\<close>

definition phases :: "timings \<Rightarrow> real option list" where
  "phases tm =
     [Some (startTime tm), dnsStart tm, dnsEnd tm, tcpConnectStart tm, tcpConnectEnd tm,
      tlsHandshakeStart tm, tlsHandshakeEnd tm, firstByteTime tm, endTime tm]"

definition phases_ordered :: "timings \<Rightarrow> bool" where
  "phases_ordered tm = (case those (phases tm) of None \<Rightarrow> False | Some ts \<Rightarrow> sorted ts)"

definition clock_readings :: "transport \<Rightarrow> real \<Rightarrow> exchange \<Rightarrow> real list" where
  "clock_readings env t_connect ex =
     [now_start env, now_startTime env, now_dnsStart env, now_dnsEnd env,
      now_tcpConnectStart env, now_socketStart env, t_connect, now_response ex]
     @ map arrival (chunks ex) @ [now_end ex]"

text \<open>
  What the \<open>data\<close> handler maintains: the local \<open>firstByteTime\<close> and the one in \<open>timings\<close>
  agree, a recorded first byte lies between two bounds, and with \<open>method: 'GET'\<close> the
  download latency is the first byte time less the start time. The handler does not
  touch the earlier phases.
\<close>

definition data_inv :: "fetch_options \<Rightarrow> real \<Rightarrow> real \<Rightarrow> request_state \<Rightarrow> bool" where
  "data_inv options lo hi st \<longleftrightarrow>
     rs_firstByteTime st = firstByteTime (rs_timings st) \<and>
     (\<forall>t. firstByteTime (rs_timings st) = Some t \<longrightarrow> lo \<le> t \<and> t \<le> hi) \<and>
     (opt_method options = Some ''GET'' \<longrightarrow>
        downloadLatency (rs_timings st) =
          minus_time (firstByteTime (rs_timings st)) (startTime (rs_timings st)))"

definition same_phases :: "request_state \<Rightarrow> request_state \<Rightarrow> bool" where
  "same_phases st st' \<longleftrightarrow>
     startTime (rs_timings st') = startTime (rs_timings st) \<and>
     dnsStart (rs_timings st') = dnsStart (rs_timings st) \<and>
     dnsEnd (rs_timings st') = dnsEnd (rs_timings st) \<and>
     tcpConnectStart (rs_timings st') = tcpConnectStart (rs_timings st) \<and>
     tcpConnectEnd (rs_timings st') = tcpConnectEnd (rs_timings st) \<and>
     tlsHandshakeStart (rs_timings st') = tlsHandshakeStart (rs_timings st) \<and>
     tlsHandshakeEnd (rs_timings st') = tlsHandshakeEnd (rs_timings st) \<and>
     uploadLatency (rs_timings st') = uploadLatency (rs_timings st)"

text \<open>Sample values for the closed theorems: a response, an exchange and a transport
  whose clock readings are 100, 100, 101, 105, 105, 106, then 140 and 150.\<close>

definition sample_res :: "(string \<rightharpoonup> string) \<Rightarrow> incoming" where
  "sample_res h =
     \<lparr>statusCode = 200, statusMessage = ''OK'', headers = h, httpVersion = ''1.1'',
      encrypted = True\<rparr>"

definition sample_exchange :: "chunk list \<Rightarrow> exchange" where
  "sample_exchange cs =
     \<lparr>res = sample_res Map.empty, now_response = 140, chunks = cs, now_end = 150\<rparr>"

definition sample_transport ::
  "js_error + string \<Rightarrow> js_error + real \<Rightarrow> js_error + exchange \<Rightarrow> transport" where
  "sample_transport d c r =
     \<lparr>now_start = 100, now_startTime = 100, now_dnsStart = 101, dns_lookup = d,
      now_dnsEnd = 105, now_tcpConnectStart = 105, now_socketStart = 106,
      socket_connect = c, https_request = r\<rparr>"

definition sample_timings :: timings where
  "sample_timings =
     connected_timings
       (sample_transport (Inr ''192.0.2.1'') (Inr 116) (Inr (sample_exchange []))) 10"

subsection \<open>Lemmas about one exchange\<close>

lemma on_data_same_phases: "same_phases st (on_data options c st)"
  by (simp add: same_phases_def on_data_def on_first_byte_def Let_def)

lemma fold_on_data_same_phases: "same_phases st (fold (on_data options) cs st)"
proof (induction cs arbitrary: st)
  case Nil
  show ?case by (simp add: same_phases_def)
next
  case (Cons c cs)
  have "same_phases st (on_data options c st)" by (rule on_data_same_phases)
  moreover have "same_phases (on_data options c st) (fold (on_data options) cs (on_data options c st))"
    by (rule Cons.IH)
  ultimately show ?case by (simp add: same_phases_def)
qed

lemma on_data_inv:
  "data_inv options lo hi st \<Longrightarrow> lo \<le> arrival c \<Longrightarrow> arrival c \<le> hi \<Longrightarrow>
   data_inv options lo hi (on_data options c st) \<and>
   firstByteTime (rs_timings (on_data options c st)) \<noteq> None"
  by (auto simp: data_inv_def on_data_def on_first_byte_def Let_def falsy_time_def minus_time_def
      split: option.splits)

lemma fold_on_data_inv:
  "data_inv options lo hi st \<Longrightarrow> \<forall>c\<in>set cs. lo \<le> arrival c \<and> arrival c \<le> hi \<Longrightarrow>
   data_inv options lo hi (fold (on_data options) cs st) \<and>
   (cs \<noteq> [] \<or> firstByteTime (rs_timings st) \<noteq> None \<longrightarrow>
      firstByteTime (rs_timings (fold (on_data options) cs st)) \<noteq> None)"
proof (induction cs arbitrary: st)
  case Nil
  then show ?case by simp
next
  case (Cons c cs)
  from Cons.prems have b: "lo \<le> arrival c" "arrival c \<le> hi" by simp_all
  note step = on_data_inv [OF Cons.prems(1) b]
  from Cons.prems(2) have rest: "\<forall>c\<in>set cs. lo \<le> arrival c \<and> arrival c \<le> hi" by simp
  from Cons.IH [OF step [THEN conjunct1] rest] step show ?case by simp
qed

lemma sorted_clock:
  assumes "sorted (clock_readings env tc ex)"
  shows "now_startTime env \<le> now_dnsStart env" "now_dnsStart env \<le> now_dnsEnd env"
    "now_dnsEnd env \<le> now_tcpConnectStart env" "now_tcpConnectStart env \<le> now_socketStart env"
    "now_socketStart env \<le> tc" "tc \<le> now_response ex" "now_response ex \<le> now_end ex"
    "\<forall>c\<in>set (chunks ex). now_response ex \<le> arrival c \<and> arrival c \<le> now_end ex"
  using assms by (auto simp: clock_readings_def sorted_append)

lemma exchange_timings:
  fixes url :: string and options :: fetch_options and tm0 :: timings and ex :: exchange
  assumes enc: "encrypted (res ex)"
    and arr: "\<forall>c\<in>set (chunks ex). now_response ex \<le> arrival c \<and> arrival c \<le> now_end ex"
    and fresh: "firstByteTime tm0 = None" "downloadLatency tm0 = None"
  defines "tm \<equiv> nr_timings (fst (run_exchange url options tm0 ex))"
  shows "startTime tm = startTime tm0" "dnsStart tm = dnsStart tm0" "dnsEnd tm = dnsEnd tm0"
    "tcpConnectStart tm = tcpConnectStart tm0" "tcpConnectEnd tm = tcpConnectEnd tm0"
    "tlsHandshakeStart tm = tlsHandshakeStart tm0"
    "tlsHandshakeEnd tm = Some (now_response ex)"
    "endTime tm = Some (now_end ex)"
    "\<forall>t. firstByteTime tm = Some t \<longrightarrow> now_response ex \<le> t \<and> t \<le> now_end ex"
    "chunks ex \<noteq> [] \<longrightarrow> firstByteTime tm \<noteq> None"
    "opt_method options = Some ''GET'' \<longrightarrow>
       downloadLatency tm = minus_time (firstByteTime tm) (startTime tm0)"
    "opt_method options = Some ''POST'' \<longrightarrow>
       uploadLatency tm = Some (now_response ex - startTime tm0)"
proof -
  let ?st0 = "\<lparr>rs_body = [], rs_bodySize = 0, rs_firstByteTime = None,
              rs_tlsHandshakeEnd = None, rs_timings = tm0\<rparr>"
  let ?st1 = "on_response options ex ?st0"
  let ?st2 = "fold (on_data options) (chunks ex) ?st1"
  have tm: "tm = (rs_timings ?st2)\<lparr>endTime := Some (now_end ex),
                                    transferSize := Some (rs_bodySize ?st2)\<rparr>"
    by (simp add: tm_def run_exchange_def on_end_def NodeResponse_def Let_def)
  have s1: "startTime (rs_timings ?st1) = startTime tm0"
    "dnsStart (rs_timings ?st1) = dnsStart tm0" "dnsEnd (rs_timings ?st1) = dnsEnd tm0"
    "tcpConnectStart (rs_timings ?st1) = tcpConnectStart tm0"
    "tcpConnectEnd (rs_timings ?st1) = tcpConnectEnd tm0"
    "tlsHandshakeStart (rs_timings ?st1) = tlsHandshakeStart tm0"
    "tlsHandshakeEnd (rs_timings ?st1) = Some (now_response ex)"
    "opt_method options = Some ''POST'' \<longrightarrow>
       uploadLatency (rs_timings ?st1) = Some (now_response ex - startTime tm0)"
    "firstByteTime (rs_timings ?st1) = None" "downloadLatency (rs_timings ?st1) = None"
    "rs_firstByteTime ?st1 = None"
    using enc fresh by (simp_all add: on_response_def)
  have "same_phases ?st1 ?st2" by (rule fold_on_data_same_phases)
  then have s2: "startTime (rs_timings ?st2) = startTime tm0"
    "dnsStart (rs_timings ?st2) = dnsStart tm0" "dnsEnd (rs_timings ?st2) = dnsEnd tm0"
    "tcpConnectStart (rs_timings ?st2) = tcpConnectStart tm0"
    "tcpConnectEnd (rs_timings ?st2) = tcpConnectEnd tm0"
    "tlsHandshakeStart (rs_timings ?st2) = tlsHandshakeStart tm0"
    "tlsHandshakeEnd (rs_timings ?st2) = Some (now_response ex)"
    "opt_method options = Some ''POST'' \<longrightarrow>
       uploadLatency (rs_timings ?st2) = Some (now_response ex - startTime tm0)"
    unfolding same_phases_def using s1(1-8) by simp_all
  have inv1: "data_inv options (now_response ex) (now_end ex) ?st1"
    unfolding data_inv_def using s1(9-11) by (simp add: minus_time_def)
  note inv2 = fold_on_data_inv [OF inv1 arr]
  show "startTime tm = startTime tm0" "dnsStart tm = dnsStart tm0" "dnsEnd tm = dnsEnd tm0"
    "tcpConnectStart tm = tcpConnectStart tm0" "tcpConnectEnd tm = tcpConnectEnd tm0"
    "tlsHandshakeStart tm = tlsHandshakeStart tm0"
    "tlsHandshakeEnd tm = Some (now_response ex)"
    "endTime tm = Some (now_end ex)"
    unfolding tm using s2(1-7) by simp_all
  show "\<forall>t. firstByteTime tm = Some t \<longrightarrow> now_response ex \<le> t \<and> t \<le> now_end ex"
    using inv2 unfolding tm by (simp add: data_inv_def)
  show "chunks ex \<noteq> [] \<longrightarrow> firstByteTime tm \<noteq> None"
    using inv2 unfolding tm by simp
  show "opt_method options = Some ''GET'' \<longrightarrow>
       downloadLatency tm = minus_time (firstByteTime tm) (startTime tm0)"
    using inv2 s2(1) unfolding tm by (simp add: data_inv_def)
  show "opt_method options = Some ''POST'' \<longrightarrow>
       uploadLatency tm = Some (now_response ex - startTime tm0)"
    unfolding tm using s2(8) by simp
qed

lemma timings_ordered:
  assumes "dns_lookup env = Inr a" and "socket_connect env = Inr tc"
    and "https_request env = Inr ex" and "encrypted (res ex)" and "chunks ex \<noteq> []"
    and "sorted (clock_readings env tc ex)"
  shows "\<exists>r. nodeFetch url options env = Inr r \<and> phases_ordered (nr_timings r)"
proof -
  let ?tm0 = "connected_timings env (tc - now_socketStart env)"
  let ?r = "fst (run_exchange url options ?tm0 ex)"
  note clk = sorted_clock [OF assms(6)]
  have fresh: "firstByteTime ?tm0 = None" "downloadLatency ?tm0 = None"
    by (simp_all add: connected_timings_def initial_timings_def)
  note tm = exchange_timings [OF assms(4) clk(8) fresh, where url = url and options = options]
  have r: "nodeFetch url options env = Inr ?r"
    using assms(1-3) by (simp add: nodeFetch_def nodeFetch_entry_def measureTCPConnect_def)
  from tm(10) assms(5) obtain t where t: "firstByteTime (nr_timings ?r) = Some t" by blast
  with tm(9) have tb: "now_response ex \<le> t" "t \<le> now_end ex" by simp_all
  have "phases (nr_timings ?r) =
      map Some [now_startTime env, now_dnsStart env, now_dnsEnd env, now_tcpConnectStart env,
        now_tcpConnectStart env + (tc - now_socketStart env),
        now_tcpConnectStart env + (tc - now_socketStart env), now_response ex, t, now_end ex]"
    using tm(1-8) t by (simp add: phases_def connected_timings_def initial_timings_def)
  moreover have "sorted [now_startTime env, now_dnsStart env, now_dnsEnd env, now_tcpConnectStart env,
        now_tcpConnectStart env + (tc - now_socketStart env),
        now_tcpConnectStart env + (tc - now_socketStart env), now_response ex, t, now_end ex]"
    using clk(1-7) tb by auto
  ultimately have "phases_ordered (nr_timings ?r)"
    by (simp add: phases_ordered_def)
  with r show ?thesis by blast
qed

text \<open>
  So an exchange that delivers at least one chunk over a TLS socket, on a monotone
  clock, resolves with all phase timestamps defined and ordered (\<open>timings_ordered\<close>).
  The failures: an awaited failure leaves through the \<open>catch\<close> block, an \<open>error\<close> event of
  the request rejects with the error itself.
\<close>

lemma awaited_failure:
  assumes "(\<exists>e. dns_lookup env = Inl e) \<or> (\<exists>e. socket_connect env = Inl e)"
  shows "nodeFetch url options env = Inl (ReferenceError ''reject is not defined'')"
  using assms
  by (auto simp: nodeFetch_def nodeFetch_entry_def measureTCPConnect_def catch_block_def
      split: sum.splits)

lemma request_error_event:
  assumes "dns_lookup env = Inr a" and "socket_connect env = Inr tc"
    and "https_request env = Inl e"
  shows "nodeFetch url options env = Inl e"
  using assms by (simp add: nodeFetch_def nodeFetch_entry_def measureTCPConnect_def)

subsection \<open>Claims about the exchange\<close>

text \<open>
  C3. The claim asks that a failed lookup, or a refused connection, rejects the promise
  of \<open>nodeFetch\<close> with that failure. The code sends both to its \<open>catch\<close> block, where
  \<open>reject\<close> is not defined: the promise rejects with a ReferenceError and the lookup or
  connection error is lost. Evaluated here for a lookup that fails with ENOTFOUND and
  for a connection that fails with ECONNREFUSED.
\<close>

theorem awaited_failure_rejects_with_ReferenceError:
  "nodeFetch ''https://nonexistent.invalid/'' no_options
     (sample_transport (Inl (SystemError ''ENOTFOUND'')) (Inr 116) (Inr (sample_exchange []))) =
     Inl (ReferenceError ''reject is not defined'') \<and>
   nodeFetch ''https://x/test'' no_options
     (sample_transport (Inr ''192.0.2.1'') (Inl (SystemError ''ECONNREFUSED''))
        (Inr (sample_exchange []))) =
     Inl (ReferenceError ''reject is not defined'')"
  by (simp add: nodeFetch_def nodeFetch_entry_def measureTCPConnect_def catch_block_def
      sample_transport_def)

text \<open>
  C6, as amended. The claim as stated fails: for a chunked transfer the code adds the
  padding of 200 whatever the accumulated size is, not only when it is zero. What
  holds for \<open>transferSize\<close> of a performance entry built from a response \<open>msg\<close> and a body
  size \<open>n\<close>: it is the declared Content-Length (as \<open>parseInt\<close> reads the header) when the
  header is present and non-empty; otherwise \<open>n + 200\<close> whenever the transfer is chunked,
  and \<open>n\<close> when it is not; and only when that value is 0 is it replaced by the \<open>sent_bytes\<close>
  value of a \<open>server-timing\<close> header, if the response carries one.
\<close>

theorem transferSize_cases:
  "(headers msg ''content-length'' = Some v \<and> v \<noteq> [] \<and> parseInt v = Some k \<and> k \<noteq> 0 \<longrightarrow>
      pe_transferSize (NodePerformanceResourceTiming tm url msg n) = Some k) \<and>
   (falsy_string (headers msg ''content-length'') \<and>
      headers msg ''transfer-encoding'' = Some ''chunked'' \<longrightarrow>
      pe_transferSize (NodePerformanceResourceTiming tm url msg n) = Some (int n + 200)) \<and>
   (falsy_string (headers msg ''content-length'') \<and>
      headers msg ''transfer-encoding'' \<noteq> Some ''chunked'' \<and> n \<noteq> 0 \<longrightarrow>
      pe_transferSize (NodePerformanceResourceTiming tm url msg n) = Some (int n)) \<and>
   ((headers msg ''content-length'' = Some v \<and> v \<noteq> [] \<and> parseInt v = Some 0) \<or>
    (falsy_string (headers msg ''content-length'') \<and>
      headers msg ''transfer-encoding'' \<noteq> Some ''chunked'' \<and> n = 0) \<longrightarrow>
      pe_transferSize (NodePerformanceResourceTiming tm url msg n) =
        (case headers msg ''server-timing'' of
           None \<Rightarrow> Some 0
         | Some w \<Rightarrow> (case match_sent_bytes w of None \<Rightarrow> Some 0 | Some d \<Rightarrow> parseInt d)))"
proof -
  have t: "pe_transferSize (NodePerformanceResourceTiming tm url msg n) =
      empty_response_size msg (declared_size msg n)"
    by (simp add: NodePerformanceResourceTiming_def)
  have z: "empty_response_size msg (Some 0) =
        (case headers msg ''server-timing'' of
           None \<Rightarrow> Some 0
         | Some w \<Rightarrow> (case match_sent_bytes w of None \<Rightarrow> Some 0 | Some d \<Rightarrow> parseInt d))"
    by (simp add: empty_response_size_def falsy_string_def template_string_def
        split: option.splits)
  have nz: "\<And>j. j \<noteq> 0 \<Longrightarrow> empty_response_size msg (Some j) = Some j"
    by (simp add: empty_response_size_def)
  show ?thesis
    unfolding t
  proof (intro conjI impI)
    assume "headers msg ''content-length'' = Some v \<and> v \<noteq> [] \<and> parseInt v = Some k \<and> k \<noteq> 0"
    then show "empty_response_size msg (declared_size msg n) = Some k"
      by (simp add: declared_size_def falsy_string_def template_string_def nz)
  next
    assume "falsy_string (headers msg ''content-length'') \<and>
      headers msg ''transfer-encoding'' = Some ''chunked''"
    then show "empty_response_size msg (declared_size msg n) = Some (int n + 200)"
      by (simp add: declared_size_def nz)
  next
    assume "falsy_string (headers msg ''content-length'') \<and>
      headers msg ''transfer-encoding'' \<noteq> Some ''chunked'' \<and> n \<noteq> 0"
    then show "empty_response_size msg (declared_size msg n) = Some (int n)"
      by (simp add: declared_size_def nz)
  next
    assume "(headers msg ''content-length'' = Some v \<and> v \<noteq> [] \<and> parseInt v = Some 0) \<or>
    (falsy_string (headers msg ''content-length'') \<and>
      headers msg ''transfer-encoding'' \<noteq> Some ''chunked'' \<and> n = 0)"
    then have "declared_size msg n = Some 0"
      by (auto simp: declared_size_def falsy_string_def template_string_def)
    then show "empty_response_size msg (declared_size msg n) =
        (case headers msg ''server-timing'' of
           None \<Rightarrow> Some 0
         | Some w \<Rightarrow> (case match_sent_bytes w of None \<Rightarrow> Some 0 | Some d \<Rightarrow> parseInt d))"
      by (simp add: z)
  qed
qed

lemma parseInt_1000: "parseInt ''1000'' = Some 1000"
  by (simp add: parseInt_def parse_signed_def parse_unsigned_def parse_digits_def
      is_digit_def digit_values_def digits_value_def digit_value_def is_white_space_def)

lemma parseInt_0: "parseInt ''0'' = Some 0"
  by (simp add: parseInt_def parse_signed_def parse_unsigned_def parse_digits_def
      is_digit_def digit_values_def digits_value_def digit_value_def is_white_space_def)

lemma parseInt_451: "parseInt ''451'' = Some 451"
  by (simp add: parseInt_def parse_signed_def parse_unsigned_def parse_digits_def
      is_digit_def digit_values_def digits_value_def digit_value_def is_white_space_def)

lemma match_sent_bytes_451: "match_sent_bytes ''dur=3, sent_bytes=451;x'' = Some ''451''"
  by (simp add: is_digit_def digit_values_def)

theorem transferSize_cases_witness:
  "pe_transferSize (NodePerformanceResourceTiming sample_timings ''https://x/test''
      (sample_res [''content-length'' \<mapsto> ''1000'']) 7) = Some 1000 \<and>
   pe_transferSize (NodePerformanceResourceTiming sample_timings ''https://x/test''
      (sample_res [''transfer-encoding'' \<mapsto> ''chunked'']) 0) = Some 200 \<and>
   pe_transferSize (NodePerformanceResourceTiming sample_timings ''https://x/test''
      (sample_res Map.empty) 10) = Some 10 \<and>
   pe_transferSize (NodePerformanceResourceTiming sample_timings ''https://x/test''
      (sample_res [''content-length'' \<mapsto> ''0'',
                   ''server-timing'' \<mapsto> ''dur=3, sent_bytes=451;x'']) 0) = Some 451"
proof -
  note a = transferSize_cases [of "sample_res [''content-length'' \<mapsto> ''1000'']"
      "''1000''" 1000 sample_timings "''https://x/test''" 7]
  note b = transferSize_cases [of "sample_res [''transfer-encoding'' \<mapsto> ''chunked'']"
      "[]" 0 sample_timings "''https://x/test''" 0]
  note c = transferSize_cases [of "sample_res Map.empty"
      "[]" 0 sample_timings "''https://x/test''" 10]
  note d = transferSize_cases [of "sample_res [''content-length'' \<mapsto> ''0'',
                   ''server-timing'' \<mapsto> ''dur=3, sent_bytes=451;x'']"
      "''0''" 0 sample_timings "''https://x/test''" 0]
  have "pe_transferSize (NodePerformanceResourceTiming sample_timings ''https://x/test''
      (sample_res [''content-length'' \<mapsto> ''1000'']) 7) = Some 1000"
    using a by (simp add: sample_res_def parseInt_1000)
  moreover have "pe_transferSize (NodePerformanceResourceTiming sample_timings ''https://x/test''
      (sample_res [''transfer-encoding'' \<mapsto> ''chunked'']) 0) = Some 200"
    using b by (simp add: sample_res_def falsy_string_def)
  moreover have "pe_transferSize (NodePerformanceResourceTiming sample_timings ''https://x/test''
      (sample_res Map.empty) 10) = Some 10"
    using c by (simp add: sample_res_def falsy_string_def)
  moreover have "pe_transferSize (NodePerformanceResourceTiming sample_timings ''https://x/test''
      (sample_res [''content-length'' \<mapsto> ''0'',
                   ''server-timing'' \<mapsto> ''dur=3, sent_bytes=451;x'']) 0) = Some 451"
    using d
    by (simp add: sample_res_def parseInt_0 parseInt_451 match_sent_bytes_451
        del: match_sent_bytes.simps)
  ultimately show ?thesis by blast
qed

text \<open>
  The counterexample to C6 as stated: a chunked response without Content-Length and a
  body of 10 is reported with a transfer size of 210, not 10.
\<close>

theorem chunked_padding_counterexample:
  "headers (sample_res [''transfer-encoding'' \<mapsto> ''chunked'']) ''content-length'' = None \<and>
   pe_transferSize (NodePerformanceResourceTiming
      sample_timings
      ''https://x/test'' (sample_res [''transfer-encoding'' \<mapsto> ''chunked'']) 10) = Some 210 \<and>
   pe_transferSize (NodePerformanceResourceTiming
      sample_timings
      ''https://x/test'' (sample_res [''transfer-encoding'' \<mapsto> ''chunked'']) 10) \<noteq> Some 10"
  by (simp add: NodePerformanceResourceTiming_def declared_size_def empty_response_size_def
      sample_res_def falsy_string_def)

text \<open>
  C7. The claim asks that every completed timing record has all phase timestamps
  defined and ordered, also for an empty body. The code assigns \<open>firstByteTime\<close> only
  in the \<open>data\<close> handler: an exchange on a monotone clock that ends without a \<open>data\<close> event
  resolves with \<open>firstByteTime\<close> undefined, so the phases are not all defined and the
  entry's latency is NaN.
\<close>

theorem empty_body_has_no_firstByteTime:
  "sorted (clock_readings
      (sample_transport (Inr ''192.0.2.1'') (Inr 116) (Inr (sample_exchange []))) 116
      (sample_exchange [])) \<and>
   \<not> isl (nodeFetch ''https://x/test?bytes=0'' no_options
      (sample_transport (Inr ''192.0.2.1'') (Inr 116) (Inr (sample_exchange [])))) \<and>
   firstByteTime (nr_timings (projr (nodeFetch ''https://x/test?bytes=0'' no_options
      (sample_transport (Inr ''192.0.2.1'') (Inr 116) (Inr (sample_exchange [])))))) = None \<and>
   \<not> phases_ordered (nr_timings (projr (nodeFetch ''https://x/test?bytes=0'' no_options
      (sample_transport (Inr ''192.0.2.1'') (Inr 116) (Inr (sample_exchange [])))))) \<and>
   latency (snd (projr (nodeFetch_entry ''https://x/test?bytes=0'' no_options
      (sample_transport (Inr ''192.0.2.1'') (Inr 116) (Inr (sample_exchange [])))))) = None"
  by (simp add: nodeFetch_def nodeFetch_entry_def measureTCPConnect_def
      run_exchange_def on_end_def on_response_def
      connected_timings_def initial_timings_def NodeResponse_def
      sample_transport_def sample_exchange_def sample_res_def no_options_def
      clock_readings_def phases_ordered_def phases_def NodePerformanceResourceTiming_def
      minus_time_def)

text \<open>
  C9. The claim asks that a read request records the download latency, also when no
  method is given and GET is the default. The request is sent with
  \<open>options.method || 'GET'\<close>, but the latency is recorded under the test
  \<open>options.method === 'GET'\<close>: without a method the first byte time is recorded and the
  download latency is not. With \<open>method: 'GET'\<close> given it is.
\<close>

theorem default_GET_records_no_downloadLatency:
  "request_method no_options = ''GET'' \<and>
   firstByteTime (nr_timings (projr (nodeFetch ''https://x/test?bytes=3'' no_options
      (sample_transport (Inr ''192.0.2.1'') (Inr 116)
         (Inr (sample_exchange [\<lparr>arrival = 141, chunk_length = 3, chunk_text = ''000''\<rparr>])))))) =
     Some 141 \<and>
   downloadLatency (nr_timings (projr (nodeFetch ''https://x/test?bytes=3'' no_options
      (sample_transport (Inr ''192.0.2.1'') (Inr 116)
         (Inr (sample_exchange [\<lparr>arrival = 141, chunk_length = 3, chunk_text = ''000''\<rparr>])))))) =
     None \<and>
   downloadLatency (nr_timings (projr (nodeFetch ''https://x/test?bytes=3''
      (no_options\<lparr>opt_method := Some ''GET''\<rparr>)
      (sample_transport (Inr ''192.0.2.1'') (Inr 116)
         (Inr (sample_exchange [\<lparr>arrival = 141, chunk_length = 3, chunk_text = ''000''\<rparr>])))))) =
     Some 41"
  by (simp add: nodeFetch_def nodeFetch_entry_def measureTCPConnect_def
      run_exchange_def on_end_def on_data_def on_first_byte_def on_response_def
      connected_timings_def initial_timings_def NodeResponse_def falsy_time_def
      sample_transport_def sample_exchange_def sample_res_def no_options_def
      request_method_def falsy_string_def Let_def)

end
